theory Spec2Isabelle
  imports Main "HOL-Library.Word"
begin

section \<open>Python values used by mechbay\<close>

text \<open>
  A Python \<open>bytes\<close> object is a list of 8-bit words. A Python \<open>str\<close> is a list of
  Unicode code points (natural numbers below \<open>0x110000\<close>), so that \<open>len\<close> counts
  code points and the UTF-8 encoding of a string can be longer than the string.
  Python's unbounded integers are \<open>int\<close>.
\<close>

type_synonym byte = "8 word"
type_synonym bytes = "byte list"
type_synonym pystr = "nat list"

datatype error =
    OverflowError | ValueError | IndexError | KeyError | TypeError | AttributeError
  | NotImplementedError | UnicodeEncodeError | UnicodeDecodeError | AssertionError
  | FileNotFoundError

datatype pyval = PInt int | PStr pystr | PNone

text \<open>A record (a Python dict) keeps its keys in insertion order.\<close>

type_synonym pydict = "(pystr \<times> pyval) list"

definition str_of :: "string \<Rightarrow> pystr" where
  "str_of s = map of_char s"

definition getitem :: "pydict \<Rightarrow> pystr \<Rightarrow> error + pyval" where
  "getitem d k = (case map_of d k of None \<Rightarrow> Inl KeyError | Some v \<Rightarrow> Inr v)"

fun setitem :: "pydict \<Rightarrow> pystr \<Rightarrow> pyval \<Rightarrow> pydict" where
  "setitem [] k v = [(k, v)]"
| "setitem ((k', v') # d) k v = (if k' = k then (k', v) # d else (k', v') # setitem d k v)"

text \<open>Sequencing of a step that may raise with its continuation.\<close>

definition and_then :: "error + 'a \<Rightarrow> ('a \<Rightarrow> error + 'b) \<Rightarrow> error + 'b" where
  "and_then m f = (case m of Inl e \<Rightarrow> Inl e | Inr x \<Rightarrow> f x)"

text \<open>\<open>s[a:b]\<close> for \<open>0 \<le> a \<le> b\<close>, and \<open>s[i]\<close> for \<open>0 \<le> i\<close>, which raises out of range.\<close>

definition slice :: "nat \<Rightarrow> nat \<Rightarrow> 'a list \<Rightarrow> 'a list" where
  "slice a b s = take (b - a) (drop a s)"

definition index :: "'a list \<Rightarrow> nat \<Rightarrow> error + 'a" where
  "index s i = (if i < length s then Inr (s ! i) else Inl IndexError)"

subsection \<open>\<open>int.to_bytes\<close> and \<open>int.from_bytes\<close>, little endian\<close>

fun le_bytes :: "nat \<Rightarrow> nat \<Rightarrow> bytes" where
  "le_bytes 0 v = []"
| "le_bytes (Suc n) v = of_nat (v mod 256) # le_bytes n (v div 256)"

definition to_bytes :: "int \<Rightarrow> nat \<Rightarrow> bool \<Rightarrow> error + bytes" where
  "to_bytes v n is_signed =
     (if is_signed then
        (if - (2 ^ (8 * n - 1)) \<le> v \<and> v < 2 ^ (8 * n - 1)
         then Inr (le_bytes n (nat (v mod 2 ^ (8 * n))))
         else Inl OverflowError)
      else
        (if 0 \<le> v \<and> v < 2 ^ (8 * n) then Inr (le_bytes n (nat v)) else Inl OverflowError))"

fun from_le :: "bytes \<Rightarrow> nat" where
  "from_le [] = 0"
| "from_le (b # bs) = unat b + 256 * from_le bs"

definition from_bytes :: "bytes \<Rightarrow> bool \<Rightarrow> int" where
  "from_bytes bs is_signed =
     (if is_signed \<and> bs \<noteq> [] \<and> 2 ^ (8 * length bs - 1) \<le> from_le bs
      then int (from_le bs) - 2 ^ (8 * length bs)
      else int (from_le bs))"

subsection \<open>UTF-8\<close>

text \<open>\<open>str.encode("utf-8")\<close>: surrogate code points cannot be encoded.\<close>

definition utf8_char :: "nat \<Rightarrow> error + bytes" where
  "utf8_char c =
     (if c < 0x80 then Inr [of_nat c]
      else if c < 0x800 then Inr [of_nat (0xC0 + c div 64), of_nat (0x80 + c mod 64)]
      else if 0xD800 \<le> c \<and> c < 0xE000 then Inl UnicodeEncodeError
      else if c < 0x10000 then
        Inr [of_nat (0xE0 + c div 4096), of_nat (0x80 + c div 64 mod 64),
             of_nat (0x80 + c mod 64)]
      else if c < 0x110000 then
        Inr [of_nat (0xF0 + c div 262144), of_nat (0x80 + c div 4096 mod 64),
             of_nat (0x80 + c div 64 mod 64), of_nat (0x80 + c mod 64)]
      else Inl UnicodeEncodeError)"

fun encode :: "pystr \<Rightarrow> error + bytes" where
  "encode [] = Inr []"
| "encode (c # cs) =
     (case utf8_char c of Inl e \<Rightarrow> Inl e
      | Inr b \<Rightarrow> (case encode cs of Inl e \<Rightarrow> Inl e | Inr bs \<Rightarrow> Inr (b @ bs)))"

text \<open>
  \<open>bytes.decode("utf-8")\<close>, strict: the lead byte gives the length of the sequence, the
  following bytes must be continuation bytes, and overlong forms, surrogates and values
  above \<open>0x10FFFF\<close> are rejected.
\<close>

definition seq_len :: "nat \<Rightarrow> nat" where
  "seq_len b0 =
     (if b0 < 0x80 then 1 else if b0 < 0xC0 then 0 else if b0 < 0xE0 then 2
      else if b0 < 0xF0 then 3 else if b0 < 0xF8 then 4 else 0)"

definition lead_bits :: "nat \<Rightarrow> nat" where
  "lead_bits b0 =
     (if b0 < 0x80 then b0 else if b0 < 0xE0 then b0 mod 32
      else if b0 < 0xF0 then b0 mod 16 else b0 mod 8)"

definition min_cp :: "nat \<Rightarrow> nat" where
  "min_cp n = (if n = 1 then 0 else if n = 2 then 0x80 else if n = 3 then 0x800 else 0x10000)"

fun cont_bits :: "nat \<Rightarrow> bytes \<Rightarrow> nat option" where
  "cont_bits acc [] = Some acc"
| "cont_bits acc (b # bs) =
     (if 0x80 \<le> unat b \<and> unat b < 0xC0 then cont_bits (acc * 64 + unat b mod 64) bs
      else None)"

fun decode :: "bytes \<Rightarrow> error + pystr" where
  "decode [] = Inr []"
| "decode (b0 # bs) =
     (let n = seq_len (unat b0) in
      if n = 0 \<or> length bs < n - 1 then Inl UnicodeDecodeError
      else (case cont_bits (lead_bits (unat b0)) (take (n - 1) bs) of
              None \<Rightarrow> Inl UnicodeDecodeError
            | Some c \<Rightarrow>
                if c < min_cp n \<or> 0x10FFFF < c \<or> (0xD800 \<le> c \<and> c < 0xE000)
                then Inl UnicodeDecodeError
                else (case decode (drop (n - 1) bs) of
                        Inl e \<Rightarrow> Inl e
                      | Inr cs \<Rightarrow> Inr (c # cs))))"

subsection \<open>\<open>int(str)\<close> and zero-padded formatting\<close>

text \<open>
  \<open>int(s)\<close> for a string, as CPython 3.11 does it: surrounding whitespace is stripped,
  one sign is allowed, and the digits may be grouped by single underscores; anything
  else raises ValueError. A digit is any Unicode decimal digit: in Unicode 14.0 these
  are 66 runs of ten consecutive code points with the values 0 to 9, and
  \<open>digit_starts\<close> lists the first code point of each run. A string of more than 4300
  digits is refused (the default of \<open>sys.set_int_max_str_digits\<close>).
\<close>

definition is_space :: "nat \<Rightarrow> bool" where
  "is_space c = (c \<in> set [0x9, 0xA, 0xB, 0xC, 0xD, 0x20, 0x85, 0xA0, 0x1680, 0x2000,
     0x2001, 0x2002, 0x2003, 0x2004, 0x2005, 0x2006, 0x2007, 0x2008, 0x2009, 0x200A,
     0x2028, 0x2029, 0x202F, 0x205F, 0x3000])"

definition digit_starts :: "nat list" where
  "digit_starts =
     [0x30, 0x660, 0x6F0, 0x7C0, 0x966, 0x9E6, 0xA66, 0xAE6, 0xB66, 0xBE6, 0xC66, 0xCE6,
      0xD66, 0xDE6, 0xE50, 0xED0, 0xF20, 0x1040, 0x1090, 0x17E0, 0x1810, 0x1946, 0x19D0,
      0x1A80, 0x1A90, 0x1B50, 0x1BB0, 0x1C40, 0x1C50, 0xA620, 0xA8D0, 0xA900, 0xA9D0,
      0xA9F0, 0xAA50, 0xABF0, 0xFF10, 0x104A0, 0x10D30, 0x11066, 0x110F0, 0x11136,
      0x111D0, 0x112F0, 0x11450, 0x114D0, 0x11650, 0x116C0, 0x11730, 0x118E0, 0x11950,
      0x11C50, 0x11D50, 0x11DA0, 0x16A60, 0x16AC0, 0x16B50, 0x1D7CE, 0x1D7D8, 0x1D7E2,
      0x1D7EC, 0x1D7F6, 0x1E140, 0x1E2F0, 0x1E950, 0x1FBF0]"

definition digit_val :: "nat \<Rightarrow> nat option" where
  "digit_val c = map_option (\<lambda>s. c - s) (find (\<lambda>s. s \<le> c \<and> c < s + 10) digit_starts)"

definition is_digit :: "nat \<Rightarrow> bool" where
  "is_digit c = (digit_val c \<noteq> None)"

definition strip :: "pystr \<Rightarrow> pystr" where
  "strip s = dropWhile is_space (rev (dropWhile is_space (rev s)))"

fun parse_digits :: "nat \<Rightarrow> pystr \<Rightarrow> nat option" where
  "parse_digits acc [] = Some acc"
| "parse_digits acc (c # cs) =
     (case digit_val c of
        Some v \<Rightarrow> parse_digits (10 * acc + v) cs
      | None \<Rightarrow>
          if c = 95 then
            (case cs of
               [] \<Rightarrow> None
             | d # ds \<Rightarrow>
                 (case digit_val d of
                    Some v \<Rightarrow> parse_digits (10 * acc + v) ds
                  | None \<Rightarrow> None))
          else None)"

definition parse_number :: "pystr \<Rightarrow> nat option" where
  "parse_number s =
     (if 4300 < length (filter is_digit s) then None
      else (case s of
              [] \<Rightarrow> None
            | c # cs \<Rightarrow>
                (case digit_val c of Some v \<Rightarrow> parse_digits v cs | None \<Rightarrow> None)))"

definition int_of_str :: "pystr \<Rightarrow> error + int" where
  "int_of_str s =
     (let t = strip s;
          r = (case t of
                 [] \<Rightarrow> None
               | c # cs \<Rightarrow>
                   if c = 43 then map_option int (parse_number cs)
                   else if c = 45 then map_option (\<lambda>n. - int n) (parse_number cs)
                   else map_option int (parse_number t))
      in case r of None \<Rightarrow> Inl ValueError | Some i \<Rightarrow> Inr i)"

text \<open>\<open>int(v)\<close> for a value of any of the three kinds.\<close>

fun py_int :: "pyval \<Rightarrow> error + int" where
  "py_int (PInt i) = Inr i"
| "py_int (PStr s) = int_of_str s"
| "py_int PNone = Inl TypeError"

text \<open>\<open>f"{n:04}"\<close> for a non-negative \<open>n\<close>: the decimal digits, zero-padded on the left.\<close>

fun dec_digits :: "nat \<Rightarrow> pystr" where
  "dec_digits n = (if n < 10 then [48 + n] else dec_digits (n div 10) @ [48 + n mod 10])"

declare dec_digits.simps [simp del]

definition format_0 :: "nat \<Rightarrow> nat \<Rightarrow> pystr" where
  "format_0 w n = replicate (w - length (dec_digits n)) 48 @ dec_digits n"

text \<open>
  \<open>chr(i)\<close> for a non-negative \<open>i\<close>: ValueError outside the code points, OverflowError
  when \<open>i\<close> does not fit a C \<open>int\<close>.
\<close>

definition chr :: "nat \<Rightarrow> error + nat" where
  "chr i =
     (if i < 0x110000 then Inr i
      else if i < 2 ^ 31 then Inl ValueError
      else Inl OverflowError)"

definition startswith :: "pystr \<Rightarrow> pystr \<Rightarrow> bool" where
  "startswith s p = (take (length p) s = p)"

section \<open>Binary streams\<close>

text \<open>
  A \<open>BinaryIO\<close> opened for reading: the contents and a cursor. \<open>read(n)\<close> returns at most
  \<open>n\<close> bytes and fewer at the end of the data (all the rest for a negative \<open>n\<close>);
  \<open>seek\<close> may go past the end, where every read returns \<open>b""\<close>.
\<close>

record buffer =
  contents :: bytes
  pos :: nat

definition buf_read :: "int \<Rightarrow> buffer \<Rightarrow> bytes \<times> buffer" where
  "buf_read n b =
     (let rest = drop (pos b) (contents b);
          chunk = (if n < 0 then rest else take (nat n) rest)
      in (chunk, b\<lparr>pos := pos b + length chunk\<rparr>))"

definition seek :: "int \<Rightarrow> buffer \<Rightarrow> error + buffer" where
  "seek p b = (if p < 0 then Inl ValueError else Inr (b\<lparr>pos := nat p\<rparr>))"

definition tell :: "buffer \<Rightarrow> nat" where
  "tell b = pos b"

section \<open>Classes and method resolution\<close>

datatype table_class = GundamDataFile | TBLData | StringTBL | StageVoiceTable

text \<open>The methods each class body class_body, and the linearised base classes.\<close>

fun class_body :: "table_class \<Rightarrow> string list" where
  "class_body GundamDataFile =
     [''__init__'', ''read_int'', ''write_int'', ''read_series_bytes'',
      ''write_series_bytes'', ''read_guid_bytes'', ''write_guid_bytes'',
      ''read_string_null_term'', ''write_string_null_term'', ''read_string_length'',
      ''write_string_length'', ''read_header'', ''write_header'', ''dump'', ''load'',
      ''read_file'', ''read'', ''write_file'', ''write'', ''read_record'', ''write_record'']"
| "class_body TBLData = []"
| "class_body StringTBL = [''_write'', ''_read'']"
| "class_body StageVoiceTable = [''_read'']"

fun mro :: "table_class \<Rightarrow> table_class list" where
  "mro GundamDataFile = [GundamDataFile]"
| "mro TBLData = [TBLData, GundamDataFile]"
| "mro StringTBL = [StringTBL, GundamDataFile]"
| "mro StageVoiceTable = [StageVoiceTable, StringTBL, GundamDataFile]"

definition resolve :: "table_class \<Rightarrow> string \<Rightarrow> table_class option" where
  "resolve c m = find (\<lambda>k. m \<in> set (class_body k)) (mro c)"

fun class_header :: "table_class \<Rightarrow> bytes option" where
  "class_header GundamDataFile = None"
| "class_header TBLData = None"
| "class_header StringTBL = Some [0x00, 0x00, 0x00, 0x00, 0x00, 0x01, 0x01, 0x00]"
| "class_header StageVoiceTable = Some [0x54, 0x52, 0x54, 0x53, 0x00, 0x01, 0x01, 0x00]"

text \<open>
  An instance: its class and the attributes \<open>__init__\<close> sets. \<open>header\<close> and
  \<open>record_count_length\<close> are instance attributes only when the constructor was given
  them; otherwise the class attribute is found.
\<close>

record obj =
  cls :: table_class
  filename :: "pystr option"
  start_pos :: nat
  inst_header :: "bytes option"
  inst_record_count_length :: "int option"

definition init :: "table_class \<Rightarrow> pystr option \<Rightarrow> bytes option \<Rightarrow> int option \<Rightarrow> obj" where
  "init c fname hdr rcl =
     \<lparr>cls = c,
      filename = (case fname of None \<Rightarrow> None | Some f \<Rightarrow> if f = [] then None else Some f),
      start_pos = 0,
      inst_header = (case hdr of None \<Rightarrow> None | Some h \<Rightarrow> if h = [] then None else Some h),
      inst_record_count_length = rcl\<rparr>"

definition header :: "obj \<Rightarrow> bytes option" where
  "header self = (case inst_header self of Some h \<Rightarrow> Some h | None \<Rightarrow> class_header (cls self))"

definition record_count_length :: "obj \<Rightarrow> int" where
  "record_count_length self = (case inst_record_count_length self of Some n \<Rightarrow> n | None \<Rightarrow> 4)"

section \<open>GundamDataFile: the primitive codec\<close>

definition read_int :: "bytes \<Rightarrow> bool \<Rightarrow> int" where
  "read_int byte_string is_signed = from_bytes byte_string is_signed"

text \<open>\<open>value.to_bytes\<close> exists on integers only.\<close>

definition write_int :: "pyval \<Rightarrow> nat \<Rightarrow> bool \<Rightarrow> error + bytes" where
  "write_int v n is_signed =
     (case v of PInt i \<Rightarrow> to_bytes i n is_signed | _ \<Rightarrow> Inl AttributeError)"

definition read_series_bytes :: "bytes \<Rightarrow> error + pystr" where
  "read_series_bytes byte_string =
     (let num = from_le (slice 0 2 byte_string) in
      and_then (chr (from_le (drop 2 byte_string))) (\<lambda>g.
      Inr ([g] @ format_0 4 num)))"

definition write_series_bytes :: "pystr \<Rightarrow> error + bytes" where
  "write_series_bytes series_string =
     and_then (int_of_str (drop 1 series_string)) (\<lambda>n.
     and_then (to_bytes n 2 False) (\<lambda>b1.
     and_then (index series_string 0) (\<lambda>c.
     and_then (to_bytes (int c) 2 False) (\<lambda>b2.
     Inr (b1 @ b2)))))"

definition read_guid_bytes :: "bytes \<Rightarrow> error + pystr option" where
  "read_guid_bytes byte_string =
     (if byte_string = [0, 0, 0, 0, 0, 0, 0, 0] then Inr None
      else
        let series = from_le (slice 0 2 byte_string) in
        and_then (index byte_string 2) (\<lambda>gundam.
        and_then (index byte_string 4) (\<lambda>unit_type.
        and_then (index byte_string 5) (\<lambda>spec.
        let model = from_le (slice 6 8 byte_string) in
        Inr (Some ([unat gundam] @ format_0 4 series @ [unat unit_type]
                   @ format_0 3 model @ format_0 2 (unat spec)))))))"

definition write_guid_bytes :: "pystr option \<Rightarrow> error + bytes" where
  "write_guid_bytes unit_string =
     (case unit_string of
        None \<Rightarrow> Inr [0, 0, 0, 0, 0, 0, 0, 0]
      | Some s \<Rightarrow>
          if s = [] then Inr [0, 0, 0, 0, 0, 0, 0, 0]
          else
            and_then (int_of_str (slice 1 5 s)) (\<lambda>series.
            and_then (to_bytes series 2 False) (\<lambda>b1.
            and_then (index s 0) (\<lambda>gundam.
            and_then (utf8_char gundam) (\<lambda>b2.
            and_then (index s 5) (\<lambda>unit_type.
            and_then (utf8_char unit_type) (\<lambda>b3.
            and_then (int_of_str (slice 9 11 s)) (\<lambda>spec.
            and_then (to_bytes spec 1 False) (\<lambda>b4.
            and_then (int_of_str (slice 6 9 s)) (\<lambda>model.
            and_then (to_bytes model 2 False) (\<lambda>b5.
            Inr (b1 @ b2 @ [0] @ b3 @ b4 @ b5))))))))))))"

text \<open>
  The loop of \<open>read_string_null_term\<close>. At the end of the data \<open>read(1)\<close> returns
  \<open>b""\<close>, which is not the terminator, so the loop goes on for ever: the function is
  partial, and \<open>None\<close> stands for not returning.
\<close>

partial_function (option) null_term_loop :: "buffer \<Rightarrow> bytes \<Rightarrow> (bytes \<times> buffer) option" where
  "null_term_loop b all_bytes =
     (case buf_read 1 b of
        (char, b') \<Rightarrow>
          if char = [0] then Some (all_bytes, b') else null_term_loop b' (all_bytes @ char))"

declare null_term_loop.simps [code]

definition read_string_null_term ::
    "obj \<Rightarrow> buffer \<Rightarrow> int \<Rightarrow> (error + pystr \<times> buffer) option" where
  "read_string_null_term self b offset =
     (case seek (offset + int (start_pos self)) b of
        Inl e \<Rightarrow> Some (Inl e)
      | Inr b1 \<Rightarrow>
          (case null_term_loop b1 [] of
             None \<Rightarrow> None
           | Some (all_bytes, b2) \<Rightarrow>
               Some (and_then (decode all_bytes) (\<lambda>output_string. Inr (output_string, b2)))))"

definition write_string_null_term :: "pystr \<Rightarrow> error + bytes" where
  "write_string_null_term s = and_then (encode s) (\<lambda>e. Inr (e @ [0]))"

definition read_string_length :: "buffer \<Rightarrow> error + pystr \<times> buffer" where
  "read_string_length b =
     (case buf_read 1 b of
        (l, b1) \<Rightarrow>
          (case buf_read (read_int l False) b1 of
             (raw, b2) \<Rightarrow> and_then (decode raw) (\<lambda>output_string. Inr (output_string, b2))))"

definition write_string_length :: "pystr \<Rightarrow> error + bytes" where
  "write_string_length s =
     and_then (write_int (PInt (int (length s))) 1 False) (\<lambda>l.
     and_then (encode s) (\<lambda>e.
     Inr (l @ e)))"

section \<open>GundamDataFile: file framing\<close>

text \<open>\<open>read_header\<close> returns the record count, the instance with \<open>_start_pos\<close> set, and the stream.\<close>

definition read_header :: "obj \<Rightarrow> buffer \<Rightarrow> error + int \<times> obj \<times> buffer" where
  "read_header self b =
     (let self' = self\<lparr>start_pos := tell b\<rparr> in
      case header self' of
        None \<Rightarrow> Inl TypeError
      | Some h \<Rightarrow>
          (case buf_read (int (length h)) b of
             (got, b1) \<Rightarrow>
               if got \<noteq> h then Inl AssertionError
               else (case buf_read (record_count_length self') b1 of
                       (cnt, b2) \<Rightarrow> Inr (read_int cnt False, self', b2))))"

definition write_header :: "obj \<Rightarrow> pyval \<Rightarrow> error + bytes" where
  "write_header self record_count =
     (case header self of
        None \<Rightarrow> Inl TypeError
      | Some h \<Rightarrow> and_then (write_int record_count 4 False) (\<lambda>c. Inr (h @ c)))"

section \<open>GundamDataFile: the record codec\<close>

text \<open>
  A schema (\<open>definition\<close>) is a dict from field names to field-type tags, iterated in
  insertion order. The functions below are the bodies of the two \<open>for\<close> loops: an
  \<open>if\<close>/\<open>elif\<close> chain with no final \<open>else\<close>.
\<close>

type_synonym schema = "(pystr \<times> pystr) list"

definition guid_val :: "pystr option \<Rightarrow> pyval" where
  "guid_val g = (case g of None \<Rightarrow> PNone | Some s \<Rightarrow> PStr s)"

definition read_field ::
    "obj \<Rightarrow> pystr \<Rightarrow> pystr \<Rightarrow> buffer \<Rightarrow> pydict \<Rightarrow> (error + pydict \<times> buffer) option" where
  "read_field self field field_type b record =
     (if startswith field_type (str_of ''int'') then
        (case int_of_str [last field_type] of
           Inl e \<Rightarrow> Some (Inl e)
         | Inr n \<Rightarrow> (case buf_read n b of
                       (raw, b') \<Rightarrow> Some (Inr (setitem record field (PInt (read_int raw True)), b'))))
      else if startswith field_type (str_of ''uint'') then
        (case int_of_str [last field_type] of
           Inl e \<Rightarrow> Some (Inl e)
         | Inr n \<Rightarrow> (case buf_read n b of
                       (raw, b') \<Rightarrow> Some (Inr (setitem record field (PInt (read_int raw False)), b'))))
      else if field_type = str_of ''len_string'' then
        Some (and_then (read_string_length b) (\<lambda>(s, b'). Inr (setitem record field (PStr s), b')))
      else if field_type = str_of ''null_string'' then
        (case read_string_null_term self b 0 of
           None \<Rightarrow> None
         | Some r \<Rightarrow> Some (and_then r (\<lambda>(s, b'). Inr (setitem record field (PStr s), b'))))
      else if field_type = str_of ''guid'' then
        (case buf_read 8 b of
           (raw, b') \<Rightarrow>
             Some (and_then (read_guid_bytes raw) (\<lambda>g. Inr (setitem record field (guid_val g), b'))))
      else if field_type = str_of ''series_guid'' then
        (case buf_read 4 b of
           (raw, b') \<Rightarrow>
             Some (and_then (read_series_bytes raw) (\<lambda>s. Inr (setitem record field (PStr s), b'))))
      else Some (Inr (record, b)))"

fun read_fields ::
    "obj \<Rightarrow> schema \<Rightarrow> buffer \<Rightarrow> pydict \<Rightarrow> (error + pydict \<times> buffer) option" where
  "read_fields self [] b record = Some (Inr (record, b))"
| "read_fields self ((field, field_type) # rest) b record =
     (case read_field self field field_type b record of
        None \<Rightarrow> None
      | Some (Inl e) \<Rightarrow> Some (Inl e)
      | Some (Inr (record', b')) \<Rightarrow> read_fields self rest b' record')"

definition read_record :: "obj \<Rightarrow> schema \<Rightarrow> buffer \<Rightarrow> (error + pydict \<times> buffer) option" where
  "read_record self definition b = read_fields self definition b []"

definition write_field :: "pystr \<Rightarrow> pystr \<Rightarrow> pydict \<Rightarrow> error + bytes" where
  "write_field field field_type record =
     (if startswith field_type (str_of ''int'') then
        and_then (getitem record field) (\<lambda>v.
        and_then (int_of_str [last field_type]) (\<lambda>n.
        write_int v (nat n) True))
      else if startswith field_type (str_of ''uint'') then
        and_then (getitem record field) (\<lambda>v.
        and_then (int_of_str [last field_type]) (\<lambda>n.
        write_int v (nat n) False))
      else if field_type = str_of ''len_string'' then write_string_length field
      else if field_type = str_of ''null_string'' then write_string_null_term field
      else if field_type = str_of ''guid'' then write_guid_bytes (Some field)
      else if field_type = str_of ''series_guid'' then write_series_bytes field
      else Inr [])"

fun write_record :: "schema \<Rightarrow> pydict \<Rightarrow> error + bytes" where
  "write_record [] record = Inr []"
| "write_record ((field, field_type) # rest) record =
     and_then (write_field field field_type record) (\<lambda>b.
     and_then (write_record rest record) (\<lambda>bs.
     Inr (b @ bs)))"

section \<open>GundamDataFile: the public entry points\<close>

text \<open>
  \<open>read\<close> and \<open>write\<close> (here \<open>write_py\<close>) are looked up on the instance's class;
  the only bodies in the hierarchy are those of \<open>GundamDataFile\<close>, which raise.
\<close>

definition GundamDataFile_read :: "obj \<Rightarrow> buffer \<Rightarrow> error + pydict list" where
  "GundamDataFile_read self b = Inl NotImplementedError"

definition GundamDataFile_write :: "obj \<Rightarrow> pydict list \<Rightarrow> error + bytes" where
  "GundamDataFile_write self records = Inl NotImplementedError"

definition read :: "obj \<Rightarrow> buffer \<Rightarrow> error + pydict list" where
  "read self b =
     (case resolve (cls self) ''read'' of
        Some GundamDataFile \<Rightarrow> GundamDataFile_read self b
      | _ \<Rightarrow> Inl AttributeError)"

definition write_py :: "obj \<Rightarrow> pydict list \<Rightarrow> error + bytes" where
  "write_py self records =
     (case resolve (cls self) ''write'' of
        Some GundamDataFile \<Rightarrow> GundamDataFile_write self records
      | _ \<Rightarrow> Inl AttributeError)"

text \<open>
  The file system is a map from paths to contents. \<open>open\<close> raises TypeError for
  \<open>None\<close> and FileNotFoundError for the empty path or, when reading, a missing file;
  opening for writing creates or truncates the file.
\<close>

type_synonym filesystem = "pystr \<rightharpoonup> bytes"

definition open_read :: "filesystem \<Rightarrow> pystr option \<Rightarrow> error + buffer" where
  "open_read fs name =
     (case name of
        None \<Rightarrow> Inl TypeError
      | Some n \<Rightarrow>
          if n = [] then Inl FileNotFoundError
          else (case fs n of
                  None \<Rightarrow> Inl FileNotFoundError
                | Some c \<Rightarrow> Inr \<lparr>contents = c, pos = 0\<rparr>))"

definition open_write :: "filesystem \<Rightarrow> pystr option \<Rightarrow> error + pystr \<times> filesystem" where
  "open_write fs name =
     (case name of
        None \<Rightarrow> Inl TypeError
      | Some n \<Rightarrow> if n = [] then Inl FileNotFoundError else Inr (n, fs(n \<mapsto> [])))"

definition read_file :: "obj \<Rightarrow> filesystem \<Rightarrow> pystr option \<Rightarrow> error + pydict list" where
  "read_file self fs name = and_then (open_read fs name) (\<lambda>b. read self b)"

definition write_file ::
    "obj \<Rightarrow> filesystem \<Rightarrow> pydict list \<Rightarrow> pystr option \<Rightarrow> error + filesystem" where
  "write_file self fs records name =
     and_then (open_write fs name) (\<lambda>(n, fs').
     and_then (write_py self records) (\<lambda>out.
     Inr (fs'(n \<mapsto> out))))"

text \<open>\<open>a or b\<close> on optional strings: \<open>None\<close> and \<open>""\<close> are false.\<close>

definition py_or :: "pystr option \<Rightarrow> pystr option \<Rightarrow> pystr option" where
  "py_or a b = (case a of None \<Rightarrow> b | Some s \<Rightarrow> if s = [] then b else Some s)"

text \<open>\<open>s.rpartition(".")[0]\<close> and, for POSIX paths, \<open>os.path.split(p)[1]\<close>.\<close>

definition rpartition_head :: "nat \<Rightarrow> pystr \<Rightarrow> pystr" where
  "rpartition_head sep s =
     (if sep \<in> set s then rev (drop 1 (dropWhile (\<lambda>c. c \<noteq> sep) (rev s))) else [])"

definition path_tail :: "pystr \<Rightarrow> pystr" where
  "path_tail p = rev (takeWhile (\<lambda>c. c \<noteq> 47) (rev p))"

definition json_name :: "pystr option \<Rightarrow> pystr option \<Rightarrow> error + pystr" where
  "json_name json_filename data_filename =
     (case py_or json_filename None of
        Some j \<Rightarrow> Inr j
      | None \<Rightarrow>
          (case data_filename of
             None \<Rightarrow> Inl AttributeError
           | Some d \<Rightarrow> Inr (rpartition_head 46 d @ str_of ''.json'')))"

definition data_key :: "obj \<Rightarrow> pystr option \<Rightarrow> error + pystr" where
  "data_key self data_filename =
     (case py_or (filename self) None of
        Some f \<Rightarrow> Inr f
      | None \<Rightarrow> (case data_filename of None \<Rightarrow> Inl TypeError | Some d \<Rightarrow> Inr (path_tail d)))"

text \<open>
  \<open>dump\<close> and \<open>load\<close>; the JSON serialiser and parser are the \<open>json\<close> module's and are
  parameters here.
\<close>

definition dump ::
    "(pystr \<Rightarrow> pydict list \<Rightarrow> bytes) \<Rightarrow> obj \<Rightarrow> filesystem \<Rightarrow> pystr option \<Rightarrow> pystr option
      \<Rightarrow> error + filesystem" where
  "dump json_dump self fs data_filename json_filename =
     (let data_filename = py_or data_filename (filename self) in
      and_then (json_name json_filename data_filename) (\<lambda>json_filename.
      and_then (data_key self data_filename) (\<lambda>key.
      and_then (read_file self fs data_filename) (\<lambda>records.
      and_then (open_write fs (Some json_filename)) (\<lambda>(n, fs').
      Inr (fs'(n \<mapsto> json_dump key records)))))))"

definition load ::
    "(bytes \<Rightarrow> error + (pystr \<rightharpoonup> pydict list)) \<Rightarrow> obj \<Rightarrow> filesystem \<Rightarrow> pystr option
      \<Rightarrow> pystr option \<Rightarrow> error + filesystem" where
  "load json_load self fs json_filename data_filename =
     (let data_filename = py_or data_filename (filename self) in
      and_then (json_name json_filename data_filename) (\<lambda>json_filename.
      and_then (open_read fs (Some json_filename)) (\<lambda>b.
      and_then (json_load (contents b)) (\<lambda>doc.
      and_then (data_key self data_filename) (\<lambda>key.
      and_then (case doc key of None \<Rightarrow> Inl KeyError | Some r \<Rightarrow> Inr r) (\<lambda>records.
      write_file self fs records data_filename))))))"

section \<open>StringTBL\<close>

definition encode_val :: "pyval \<Rightarrow> error + bytes" where
  "encode_val v = (case v of PStr s \<Rightarrow> encode s | _ \<Rightarrow> Inl AttributeError)"

text \<open>The first loop of \<open>_write\<close>: the index entries, with the running \<open>string_start\<close>.\<close>

fun write_index :: "pydict list \<Rightarrow> int \<Rightarrow> error + bytes" where
  "write_index [] string_start = Inr []"
| "write_index (record # records) string_start =
     and_then (getitem record (str_of ''index'')) (\<lambda>v.
     and_then (py_int v) (\<lambda>i.
     and_then (to_bytes i 4 False) (\<lambda>b1.
     and_then (to_bytes string_start 4 False) (\<lambda>b2.
     and_then (getitem record (str_of ''string'')) (\<lambda>s.
     and_then (encode_val s) (\<lambda>e.
     and_then (write_index records (string_start + int (length e) + 1)) (\<lambda>rest.
     Inr (b1 @ b2 @ rest))))))))"

text \<open>The second loop of \<open>_write\<close>: the string blob.\<close>

fun write_strings :: "pydict list \<Rightarrow> error + bytes" where
  "write_strings [] = Inr []"
| "write_strings (record # records) =
     and_then (getitem record (str_of ''string'')) (\<lambda>s.
     and_then (encode_val s) (\<lambda>e.
     and_then (write_strings records) (\<lambda>rest.
     Inr (e @ [0] @ rest))))"

definition StringTBL__write :: "obj \<Rightarrow> pydict list \<Rightarrow> error + bytes" where
  "StringTBL__write self records =
     (case header self of
        None \<Rightarrow> Inl TypeError
      | Some h \<Rightarrow>
          let record_count = length records in
          and_then (to_bytes (int record_count) 4 False) (\<lambda>c.
          let string_start = 12 + record_count * 8;
              padding = 16 - string_start mod 16 in
          and_then (write_index records (int (string_start + padding))) (\<lambda>idx.
          and_then (write_strings records) (\<lambda>strs.
          Inr (h @ c @ idx @ replicate padding 0 @ strs)))))"

text \<open>The first loop of \<open>_read\<close>, \<open>for i in range(record_count)\<close>.\<close>

fun read_entries :: "nat \<Rightarrow> nat \<Rightarrow> buffer \<Rightarrow> pydict list \<times> buffer" where
  "read_entries i 0 b = ([], b)"
| "read_entries i (Suc n) b =
     (case buf_read 4 b of
        (x, b1) \<Rightarrow>
          (case buf_read 4 b1 of
             (p, b2) \<Rightarrow>
               (case read_entries (Suc i) n b2 of
                  (records, b3) \<Rightarrow>
                    ([(str_of ''__order'', PInt (int i)),
                      (str_of ''index'', PInt (from_bytes x False)),
                      (str_of ''__pointer'', PInt (from_bytes p False))] # records, b3))))"

text \<open>
  The second loop of \<open>_read\<close> calls \<open>self.read_string\<close> for the first record. The lookup
  goes through the classes of the instance; no class body defines \<open>read_string\<close>, so
  there is no method body to continue with and the lookup raises AttributeError.
\<close>

definition read_strings ::
    "obj \<Rightarrow> pydict list \<Rightarrow> buffer \<Rightarrow> error + pydict list \<times> buffer" where
  "read_strings self records b =
     (case records of
        [] \<Rightarrow> Inr ([], b)
      | record # rest \<Rightarrow>
          (case resolve (cls self) ''read_string'' of
             None \<Rightarrow> Inl AttributeError
           | Some c \<Rightarrow> Inl AttributeError))"

definition StringTBL__read :: "obj \<Rightarrow> buffer \<Rightarrow> error + pydict list \<times> obj \<times> buffer" where
  "StringTBL__read self b =
     and_then (read_header self b) (\<lambda>(record_count, self', b1).
     case read_entries 0 (nat record_count) b1 of
       (records, b2) \<Rightarrow>
         and_then (read_strings self' records b2) (\<lambda>(records', b3).
         Inr (records', self', b3)))"

section \<open>StageVoiceTable\<close>

text \<open>\<open>s.split(",")\<close>: always at least one part.\<close>

fun split_on :: "nat \<Rightarrow> pystr \<Rightarrow> pystr list" where
  "split_on sep [] = [[]]"
| "split_on sep (c # cs) =
     (if c = sep then [] # split_on sep cs
      else (case split_on sep cs of [] \<Rightarrow> [[c]] | p # ps \<Rightarrow> (c # p) # ps))"

definition split_val :: "pyval \<Rightarrow> error + pystr list" where
  "split_val v = (case v of PStr s \<Rightarrow> Inr (split_on 44 s) | _ \<Rightarrow> Inl AttributeError)"

text \<open>The body of the loop of \<open>StageVoiceTable._read\<close>, for one record.\<close>

definition unpack_voice :: "pydict \<Rightarrow> error + pydict" where
  "unpack_voice record =
     and_then (getitem record (str_of ''string'')) (\<lambda>v.
     and_then (split_val v) (\<lambda>unpack.
     and_then (index unpack 0) (\<lambda>p0.
     let r0 = setitem record (str_of ''voice_id'') (PStr p0) in
     and_then (index unpack 1) (\<lambda>p1.
     and_then (int_of_str p1) (\<lambda>n1.
     let r1 = setitem r0 (str_of ''val1'') (PInt n1) in
     and_then (index unpack 2) (\<lambda>p2.
     and_then (int_of_str p2) (\<lambda>n2.
     let r2 = setitem r1 (str_of ''val2'') (PInt n2) in
     and_then (index unpack 3) (\<lambda>p3.
     and_then (int_of_str p3) (\<lambda>n3.
     Inr (setitem r2 (str_of ''val3'') (PInt n3)))))))))))"

fun unpack_all :: "pydict list \<Rightarrow> error + pydict list" where
  "unpack_all [] = Inr []"
| "unpack_all (record # records) =
     and_then (unpack_voice record) (\<lambda>r.
     and_then (unpack_all records) (\<lambda>rs.
     Inr (r # rs)))"

definition StageVoiceTable__read ::
    "obj \<Rightarrow> buffer \<Rightarrow> error + pydict list \<times> obj \<times> buffer" where
  "StageVoiceTable__read self b =
     and_then (StringTBL__read self b) (\<lambda>(records, self', b').
     and_then (unpack_all records) (\<lambda>records'.
     Inr (records', self', b')))"

section \<open>Auxiliary definitions\<close>

text \<open>The value of a string of ASCII digits, read from the left with an accumulator.\<close>

definition digits_value :: "nat \<Rightarrow> pystr \<Rightarrow> nat" where
  "digits_value acc ds = foldl (\<lambda>a c. 10 * a + (c - 48)) acc ds"

text \<open>
  A two-record string table, \<open>[{index: 1, string: "A"}, {index: 2, string: "BB"}]\<close>, and the
  bytes \<open>_write\<close> produces for it.
\<close>

definition example_table :: obj where
  "example_table = init StringTBL None None None"

definition example_records :: "pydict list" where
  "example_records =
     [[(str_of ''index'', PInt 1), (str_of ''string'', PStr (str_of ''A''))],
      [(str_of ''index'', PInt 2), (str_of ''string'', PStr (str_of ''BB''))]]"

definition example_bytes :: bytes where
  "example_bytes =
     [0, 0, 0, 0, 0, 1, 1, 0, 2, 0, 0, 0,
      1, 0, 0, 0, 32, 0, 0, 0, 2, 0, 0, 0, 34, 0, 0, 0,
      0, 0, 0, 0, 65, 0, 66, 66, 0]"

text \<open>
  Records that \<open>StringTBL._write\<close> can write: an integer \<open>index\<close> that fits four bytes
  and a \<open>string\<close> without surrogate code points. \<open>str_len\<close> is the length of the
  string of a record, in characters.
\<close>

definition encodable :: "pystr \<Rightarrow> bool" where
  "encodable s = list_all (\<lambda>c. c < 0xD800 \<or> (0xE000 \<le> c \<and> c < 0x110000)) s"

definition well_formed :: "pydict \<Rightarrow> bool" where
  "well_formed r =
     ((case getitem r (str_of ''index'') of
         Inr (PInt i) \<Rightarrow> 0 \<le> i \<and> i < 2 ^ 32
       | _ \<Rightarrow> False)
      \<and> (case getitem r (str_of ''string'') of
            Inr (PStr s) \<Rightarrow> encodable s
          | _ \<Rightarrow> False))"

definition str_len :: "pydict \<Rightarrow> nat" where
  "str_len r = (case getitem r (str_of ''string'') of Inr (PStr s) \<Rightarrow> length s | _ \<Rightarrow> 0)"

text \<open>
  The same two records written by an instance constructed with the two-byte header
  \<open>b"AB"\<close>, and a voice-cue table of one record, \<open>"v001,1,2,3"\<close>.
\<close>

definition short_header_table :: obj where
  "short_header_table = init StringTBL None (Some [0x41, 0x42]) None"

definition short_header_bytes :: bytes where
  "short_header_bytes =
     [0x41, 0x42, 2, 0, 0, 0,
      1, 0, 0, 0, 32, 0, 0, 0, 2, 0, 0, 0, 34, 0, 0, 0,
      0, 0, 0, 0, 65, 0, 66, 66, 0]"

definition voice_table :: obj where
  "voice_table = init StageVoiceTable None None None"

definition voice_records :: "pydict list" where
  "voice_records = [[(str_of ''index'', PInt 1), (str_of ''string'', PStr (str_of ''v001,1,2,3''))]]"

definition voice_bytes :: bytes where
  "voice_bytes =
     [0x54, 0x52, 0x54, 0x53, 0, 1, 1, 0, 1, 0, 0, 0,
      1, 0, 0, 0, 32, 0, 0, 0,
      0, 0, 0, 0, 0, 0, 0, 0, 0, 0, 0, 0,
      0x76, 0x30, 0x30, 0x31, 0x2C, 0x31, 0x2C, 0x32, 0x2C, 0x33, 0]"

section \<open>Auxiliary facts\<close>

lemma length_le_bytes: "length (le_bytes k n) = k"
  by (induction k arbitrary: n) auto

lemma unat_byte_of_nat: "unat (of_nat n :: byte) = n mod 256"
  by (simp add: unat_of_nat)

lemma from_le_le_bytes: "from_le (le_bytes k n) = n mod 256 ^ k"
proof (induction k arbitrary: n)
  case 0
  then show ?case by simp
next
  case (Suc k)
  have "n mod 256 + 256 * (n div 256 mod 256 ^ k) = n mod (256 * 256 ^ k)"
    by (simp add: mod_mult2_eq)
  with Suc show ?case by (simp add: unat_byte_of_nat)
qed

lemma from_le_bound: "from_le bs < 256 ^ length bs"
proof (induction bs)
  case Nil
  then show ?case by simp
next
  case (Cons b bs)
  have "unat b < 256" using unsigned_less [of b] by simp
  with Cons show ?case by simp
qed

lemma le_bytes_from_le: "le_bytes (length bs) (from_le bs) = bs"
proof (induction bs)
  case Nil
  then show ?case by simp
next
  case (Cons b bs)
  have b: "unat b < 256" using unsigned_less [of b] by simp
  then have "(unat b + 256 * from_le bs) mod 256 = unat b"
    and "(unat b + 256 * from_le bs) div 256 = from_le bs"
    by simp_all
  with Cons show ?case by simp
qed

lemma dec_digits_ne: "dec_digits n \<noteq> []"
  by (subst dec_digits.simps) simp

lemma dec_digits_digit: "c \<in> set (dec_digits n) \<Longrightarrow> 48 \<le> c \<and> c \<le> 57"
proof (induction n arbitrary: c rule: dec_digits.induct)
  case (1 n)
  show ?case
  proof (cases "n < 10")
    case True
    with "1.prems" show ?thesis by (simp add: dec_digits.simps [of n])
  next
    case False
    have "n mod 10 < 10" by simp
    with False "1.prems" "1.IH" show ?thesis
      by (auto simp add: dec_digits.simps [of n])
  qed
qed

lemma length_dec_digits: "0 < w \<Longrightarrow> n < 10 ^ w \<Longrightarrow> length (dec_digits n) \<le> w"
proof (induction n arbitrary: w rule: dec_digits.induct)
  case (1 n)
  show ?case
  proof (cases "n < 10")
    case True
    with "1.prems" show ?thesis by (simp add: dec_digits.simps [of n])
  next
    case False
    from "1.prems" obtain v where v: "w = Suc v"
      by (cases w) auto
    with False "1.prems" have "0 < v"
      by (cases v) auto
    note w = v this
    have "n div 10 < 10 ^ v" using "1.prems" w by (simp add: less_mult_imp_div_less mult.commute)
    with "1.IH" [OF False w(2)] w False show ?thesis
      by (simp add: dec_digits.simps [of n])
  qed
qed

lemma length_format_0: "0 < w \<Longrightarrow> n < 10 ^ w \<Longrightarrow> length (format_0 w n) = w"
  using length_dec_digits [of w n] by (simp add: format_0_def)

lemma digit_val_ascii: "48 \<le> c \<Longrightarrow> c \<le> 57 \<Longrightarrow> digit_val c = Some (c - 48)"
  by (simp add: digit_val_def digit_starts_def)

lemma digit_not_space: "48 \<le> c \<Longrightarrow> c \<le> 57 \<Longrightarrow> \<not> is_space c"
  by (auto simp add: is_space_def)

lemma dropWhile_head: "xs \<noteq> [] \<Longrightarrow> \<not> P (hd xs) \<Longrightarrow> dropWhile P xs = xs"
  by (cases xs) auto

lemma strip_digits:
  assumes "s \<noteq> []" and "\<forall>c \<in> set s. 48 \<le> c \<and> c \<le> 57"
  shows "strip s = s"
proof -
  have "\<not> is_space (hd (rev s))"
    using assms by (simp add: hd_rev digit_not_space)
  with assms(1) have "dropWhile is_space (rev s) = rev s"
    by (simp add: dropWhile_head)
  moreover have "\<not> is_space (hd s)"
    using assms by (simp add: digit_not_space)
  ultimately show ?thesis
    using assms(1) by (simp add: strip_def dropWhile_head)
qed

lemma parse_digits_all:
  "\<forall>c \<in> set ds. 48 \<le> c \<and> c \<le> 57 \<Longrightarrow> parse_digits acc ds = Some (digits_value acc ds)"
  by (induction ds arbitrary: acc) (simp_all add: digits_value_def digit_val_ascii)

lemma parse_number_all:
  assumes "s \<noteq> []" and "\<forall>c \<in> set s. 48 \<le> c \<and> c \<le> 57" and "length s \<le> 4300"
  shows "parse_number s = Some (digits_value 0 s)"
proof -
  from assms(1) obtain c cs where s: "s = c # cs" by (cases s) auto
  with assms(2) have "parse_digits (c - 48) cs = Some (digits_value (c - 48) cs)"
    by (simp add: parse_digits_all)
  moreover have "length (filter is_digit s) \<le> 4300"
    using assms(3) by (rule order_trans [OF length_filter_le])
  moreover have "digit_val c = Some (c - 48)"
    using s assms(2) by (simp add: digit_val_ascii)
  ultimately show ?thesis
    using s by (simp add: parse_number_def digits_value_def)
qed

lemma digits_value_dec: "digits_value acc (dec_digits n) = acc * 10 ^ length (dec_digits n) + n"
proof (induction n arbitrary: acc rule: dec_digits.induct)
  case (1 n)
  show ?case
  proof (cases "n < 10")
    case True
    then show ?thesis by (simp add: dec_digits.simps [of n] digits_value_def)
  next
    case False
    have "digits_value acc (dec_digits n)
        = 10 * digits_value acc (dec_digits (n div 10)) + n mod 10"
      using False by (simp add: dec_digits.simps [of n] digits_value_def)
    also have "\<dots> = 10 * (acc * 10 ^ length (dec_digits (n div 10)) + n div 10) + n mod 10"
      using "1.IH" [OF False] by simp
    also have "\<dots> = acc * 10 ^ length (dec_digits n) + n"
      using False by (simp add: dec_digits.simps [of n] algebra_simps)
    finally show ?thesis .
  qed
qed

lemma digits_value_zeros: "digits_value 0 (replicate k 48 @ ds) = digits_value 0 ds"
  by (induction k) (simp_all add: digits_value_def)

lemma int_of_str_digits:
  assumes len: "length (format_0 w n) \<le> 4300"
  shows "int_of_str (format_0 w n) = Inr (int n)"
proof -
  let ?s = "format_0 w n"
  have ne: "?s \<noteq> []" by (simp add: format_0_def dec_digits_ne)
  have dig: "\<forall>c \<in> set ?s. 48 \<le> c \<and> c \<le> 57"
    by (auto simp add: format_0_def dest: dec_digits_digit)
  have st: "strip ?s = ?s" by (rule strip_digits [OF ne dig])
  have pn: "parse_number ?s = Some n"
    using parse_number_all [OF ne dig len]
    by (simp add: format_0_def digits_value_zeros digits_value_dec)
  from ne obtain c cs where s: "?s = c # cs" by (cases ?s) auto
  with dig have c: "c \<noteq> 43" "c \<noteq> 45" by auto
  show ?thesis
    unfolding int_of_str_def Let_def st using s c pn by simp
qed

lemma int_of_str_format_0:
  "0 < w \<Longrightarrow> w \<le> 4300 \<Longrightarrow> n < 10 ^ w \<Longrightarrow> int_of_str (format_0 w n) = Inr (int n)"
  by (rule int_of_str_digits) (simp add: length_format_0)

lemma and_then_Inr: "and_then (Inr x) f = f x"
  by (simp add: and_then_def)

lemma and_then_Inl: "and_then (Inl e) f = Inl e"
  by (simp add: and_then_def)

lemma guid_slices:
  assumes "length a = 4" and "length c = 3" and "length d = 2"
  shows "slice 1 5 (g # a @ u # c @ d) = a"
    and "index (g # a @ u # c @ d) 0 = Inr g"
    and "index (g # a @ u # c @ d) 5 = Inr u"
    and "slice 9 11 (g # a @ u # c @ d) = d"
    and "slice 6 9 (g # a @ u # c @ d) = c"
  using assms by (simp_all add: slice_def index_def nth_append)

lemma to_bytes_nat:
  assumes "n < 256 ^ k"
  shows "to_bytes (int n) k False = Inr (le_bytes k n)"
proof -
  have "(256::nat) ^ k = 2 ^ (8 * k)" by (simp add: power_mult)
  with assms have "n < 2 ^ (8 * k)" by simp
  then have "int n < 2 ^ (8 * k)" by simp
  then show ?thesis by (simp add: to_bytes_def)
qed

lemma byte_less: "unat (b :: byte) < 256"
  using unsigned_less [of b] by simp

lemma le_bytes_pair: "le_bytes 2 (unat (b0 :: byte) + 256 * unat (b1 :: byte)) = [b0, b1]"
proof -
  have "(unat b0 + 256 * unat b1) mod 256 = unat b0"
    and "(unat b0 + 256 * unat b1) div 256 = unat b1"
    and "unat b1 mod 256 = unat b1"
    using byte_less [of b0] byte_less [of b1] by simp_all
  then show ?thesis by (simp add: numeral_2_eq_2)
qed

lemma to_bytes_pair:
  "to_bytes (int (unat (b0 :: byte) + 256 * unat (b1 :: byte))) 2 False = Inr [b0, b1]"
proof -
  have "unat b0 + 256 * unat b1 < 256 ^ 2"
    using byte_less [of b0] byte_less [of b1] by simp
  from to_bytes_nat [OF this] show ?thesis by (simp only: le_bytes_pair)
qed

lemma to_bytes_single: "to_bytes (int (unat (b :: byte))) 1 False = Inr [b]"
proof -
  have "unat b < 256 ^ 1" using byte_less [of b] by simp
  from to_bytes_nat [OF this] have "to_bytes (int (unat b)) 1 False = Inr (le_bytes 1 (unat b))" .
  moreover have "le_bytes 1 (unat b) = [b]"
    using byte_less [of b] by simp
  ultimately show ?thesis by (simp only:)
qed

lemma utf8_char_ascii: "unat (b :: byte) < 128 \<Longrightarrow> utf8_char (unat b) = Inr [b]"
  by (simp add: utf8_char_def)

lemma and_then_eq_Inr: "and_then m f = Inr y \<longleftrightarrow> (\<exists>x. m = Inr x \<and> f x = Inr y)"
  by (cases m) (simp_all add: and_then_def)

lemma length_to_bytes: "to_bytes v n sg = Inr b \<Longrightarrow> length b = n"
  by (auto simp add: to_bytes_def length_le_bytes split: if_splits)

lemma length_write_index: "write_index records ss = Inr idx \<Longrightarrow> length idx = 8 * length records"
proof (induction records arbitrary: ss idx)
  case Nil
  then show ?case by simp
next
  case (Cons r rs)
  from Cons.prems obtain b1 b2 rest i k where
    "to_bytes i 4 False = Inr b1" "to_bytes ss 4 False = Inr b2"
    "write_index rs k = Inr rest" "idx = b1 @ b2 @ rest"
    by (auto simp add: and_then_eq_Inr)
  with Cons.IH [of k rest] show ?case
    by (simp add: length_to_bytes)
qed

lemma padding_aligned: "(12 + n * 8 + (16 - (12 + n * 8) mod 16)) mod 16 = (0::nat)"
  by presburger

lemma null_term_loop_found:
  "drop (pos b) (contents b) = s @ 0 # rest \<Longrightarrow> 0 \<notin> set s \<Longrightarrow>
   null_term_loop b acc = Some (acc @ s, b\<lparr>pos := pos b + length s + 1\<rparr>)"
proof (induction s arbitrary: b acc)
  case Nil
  then show ?case
    by (subst null_term_loop.simps) (simp add: buf_read_def)
next
  case (Cons c s)
  let ?b = "b\<lparr>pos := pos b + 1\<rparr>"
  from Cons.prems have r: "buf_read 1 b = ([c], ?b)"
    by (simp add: buf_read_def)
  have "drop (pos ?b) (contents ?b) = s @ 0 # rest"
    using Cons.prems(1) by (simp add: drop_Suc drop_tl)
  moreover from Cons.prems have "0 \<notin> set s" "c \<noteq> 0" by auto
  ultimately show ?case
    using Cons.IH [of ?b "acc @ [c]"] r
    by (subst null_term_loop.simps) simp
qed

lemma read_field_skip:
  assumes "\<not> startswith ty (str_of ''int'')" and "\<not> startswith ty (str_of ''uint'')"
    and "ty \<notin> set (map str_of [''len_string'', ''null_string'', ''guid'', ''series_guid''])"
  shows "read_field self field ty b record = Some (Inr (record, b))"
  using assms by (simp add: read_field_def)

lemma read_fields_append_skip:
  assumes "\<And>b record. read_field self field ty b record = Some (Inr (record, b))"
  shows "read_fields self (pre @ (field, ty) # post) b r = read_fields self (pre @ post) b r"
proof (induction pre arbitrary: b r)
  case Nil
  then show ?case by (simp add: assms)
next
  case (Cons p pre)
  obtain f t where p: "p = (f, t)" by (cases p)
  show ?case
    by (simp add: p Cons.IH split: option.splits sum.splits prod.splits)
qed

lemma isl_and_then: "(\<And>x. isl (f x)) \<Longrightarrow> isl (and_then m f)"
  by (cases m) (simp_all add: and_then_def)

lemma isl_and_then_left: "isl m \<Longrightarrow> isl (and_then m f)"
  by (cases m) (simp_all add: and_then_def)

lemma resolve_read: "c = StringTBL \<or> c = StageVoiceTable \<Longrightarrow> resolve c ''read'' = Some GundamDataFile"
  by (auto simp add: resolve_def)

lemma resolve_write: "c = StringTBL \<or> c = StageVoiceTable \<Longrightarrow> resolve c ''write'' = Some GundamDataFile"
  by (auto simp add: resolve_def)

lemma resolve_read_string: "resolve c ''read_string'' = None"
  by (cases c) (simp_all add: resolve_def)

lemma le_bytes_numeral:
  "le_bytes (numeral k) v = of_nat (v mod 256) # le_bytes (pred_numeral k) (v div 256)"
  by (simp only: numeral_eq_Suc le_bytes.simps)

lemma replicate_numeral:
  "replicate (numeral k) x = x # replicate (pred_numeral k) x"
  by (simp only: numeral_eq_Suc replicate.simps)

lemma dec_digits_small: "n < 10 \<Longrightarrow> dec_digits n = [48 + n]"
  by (simp add: dec_digits.simps [of n])

lemma dec_digits_step: "\<not> n < 10 \<Longrightarrow> dec_digits n = dec_digits (n div 10) @ [48 + n mod 10]"
  by (simp add: dec_digits.simps [of n])

lemmas eval_defs = str_of_def startswith_def and_then_def Let_def slice_def index_def
  le_bytes_numeral replicate_numeral format_0_def dec_digits_small dec_digits_step
  to_bytes_def from_bytes_def utf8_char_def write_int_def read_int_def getitem_def
  int_of_str_def strip_def is_space_def is_digit_def digit_val_def digit_starts_def
  parse_number_def chr_def
  seq_len_def lead_bits_def min_cp_def buf_read_def seek_def tell_def

lemma read_entries_numeral:
  "read_entries i (numeral k) b = read_entries i (Suc (pred_numeral k)) b"
  by (simp only: numeral_eq_Suc)

lemma write_example: "StringTBL__write example_table example_records = Inr example_bytes"
  unfolding StringTBL__write_def example_table_def example_records_def example_bytes_def
  by (simp add: init_def header_def encode_val_def eval_defs)

lemma split_examples:
  "split_on 44 (str_of ''v001,1,2,3'') = [str_of ''v001'', str_of ''1'', str_of ''2'', str_of ''3'']"
  "split_on 44 (str_of ''v001,1,2'') = [str_of ''v001'', str_of ''1'', str_of ''2'']"
  "split_on 44 (str_of ''v001,1,x,3'') = [str_of ''v001'', str_of ''1'', str_of ''x'', str_of ''3'']"
  by (simp_all add: str_of_def)

lemma to_bytes_from_le:
  assumes "to_bytes v n False = Inr b"
  shows "int (from_le b) = v"
proof -
  from assms have v: "0 \<le> v" "v < 2 ^ (8 * n)" and b: "b = le_bytes n (nat v)"
    by (auto simp add: to_bytes_def split: if_splits)
  have "(256::nat) ^ n = 2 ^ (8 * n)" by (simp add: power_mult)
  moreover from v have "nat v < 2 ^ (8 * n)"
    by (simp add: nat_less_iff)
  ultimately have "nat v mod 256 ^ n = nat v" by simp
  with b v(1) show ?thesis by (simp add: from_le_le_bytes)
qed

lemma write_index_pointer:
  assumes "write_index records ss = Inr idx"
    and "write_strings records = Inr blob"
    and "i < length records"
  shows "\<exists>s e k. getitem (records ! i) (str_of ''string'') = Inr s \<and> encode_val s = Inr e
           \<and> int (from_le (take 4 (drop (8 * i + 4) idx))) = ss + int k
           \<and> take (length e + 1) (drop k blob) = e @ [0]"
  using assms
proof (induction records arbitrary: ss idx blob i)
  case Nil
  then show ?case by simp
next
  case (Cons r rs)
  from Cons.prems(1) obtain x b1 b2 s e rest where
    b1: "to_bytes x 4 False = Inr b1" and b2: "to_bytes ss 4 False = Inr b2"
    and s: "getitem r (str_of ''string'') = Inr s" and e: "encode_val s = Inr e"
    and rest: "write_index rs (ss + int (length e) + 1) = Inr rest"
    and idx: "idx = b1 @ b2 @ rest"
    by (auto simp add: and_then_eq_Inr)
  from Cons.prems(2) s e obtain brest where
    brest: "write_strings rs = Inr brest" and blob: "blob = e @ [0] @ brest"
    by (auto simp add: and_then_eq_Inr)
  have l1: "length b1 = 4" and l2: "length b2 = 4"
    using b1 b2 by (simp_all add: length_to_bytes)
  show ?case
  proof (cases i)
    case 0
    have "take 4 (drop (8 * i + 4) idx) = b2"
      using 0 idx l1 l2 by simp
    then have pp: "int (from_le (take 4 (drop (8 * i + 4) idx))) = ss + int 0"
      using to_bytes_from_le [OF b2] by simp
    have tt: "take (length e + 1) (drop 0 blob) = e @ [0]"
      using blob by simp
    have g: "getitem ((r # rs) ! i) (str_of ''string'') = Inr s"
      using 0 s by simp
    show ?thesis
      by (intro exI conjI) (rule g, rule e, rule pp, rule tt)
  next
    case (Suc j)
    with Cons.prems(3) have j: "j < length rs" by simp
    from Cons.IH [OF rest brest j] obtain s' e' k where
      s': "getitem (rs ! j) (str_of ''string'') = Inr s'" and e': "encode_val s' = Inr e'"
      and p: "int (from_le (take 4 (drop (8 * j + 4) rest))) = ss + int (length e) + 1 + int k"
      and t: "take (length e' + 1) (drop k brest) = e' @ [0]"
      by blast
    have "drop (8 * i + 4) idx = drop (8 * j + 4) rest"
      using Suc idx l1 l2 by (simp add: ac_simps)
    with p have pp: "int (from_le (take 4 (drop (8 * i + 4) idx))) = ss + int (length e + 1 + k)"
      by simp
    have tt: "take (length e' + 1) (drop (length e + 1 + k) blob) = e' @ [0]"
      using t blob by simp
    have g: "getitem ((r # rs) ! i) (str_of ''string'') = Inr s'"
      using Suc s' by simp
    show ?thesis
      by (intro exI conjI) (rule g, rule e', rule pp, rule tt)
  qed
qed

lemma encode_replicate_e9:
  "encode (replicate n 233) = Inr (concat (replicate n [0xC3, 0xA9]))"
  by (induction n) (simp_all add: utf8_char_def)

lemma utf8_char_total:
  assumes "c < 0xD800 \<or> (0xE000 \<le> c \<and> c < 0x110000)"
  shows "\<exists>b. utf8_char c = Inr b \<and> length b \<le> 4"
  using assms by (auto simp add: utf8_char_def)

lemma encode_total: "encodable s \<Longrightarrow> \<exists>e. encode s = Inr e \<and> length e \<le> 4 * length s"
proof (induction s)
  case Nil
  then show ?case by simp
next
  case (Cons c s)
  then have "c < 0xD800 \<or> (0xE000 \<le> c \<and> c < 0x110000)" and "encodable s"
    by (simp_all add: encodable_def)
  from utf8_char_total [OF this(1)] Cons.IH [OF this(2)] show ?case
    by auto
qed

lemma well_formed_fields:
  assumes "well_formed r"
  obtains i s e where "getitem r (str_of ''index'') = Inr (PInt i)" "0 \<le> i" "i < 2 ^ 32"
    "getitem r (str_of ''string'') = Inr (PStr s)" "encode s = Inr e"
    "length e \<le> 4 * str_len r"
proof -
  from assms obtain i s where
    i: "getitem r (str_of ''index'') = Inr (PInt i)" "0 \<le> i" "i < 2 ^ 32"
    and s: "getitem r (str_of ''string'') = Inr (PStr s)" "encodable s"
    by (auto simp add: well_formed_def split: sum.splits pyval.splits)
  from encode_total [OF s(2)] obtain e where "encode s = Inr e" "length e \<le> 4 * length s"
    by blast
  with i s show thesis by (intro that [of i s e]) (simp_all add: str_len_def)
qed

lemma to_bytes_4: "0 \<le> v \<Longrightarrow> v < 2 ^ 32 \<Longrightarrow> \<exists>b. to_bytes v 4 False = Inr b"
  by (simp add: to_bytes_def)

lemma write_strings_total: "list_all well_formed rs \<Longrightarrow> \<exists>blob. write_strings rs = Inr blob"
proof (induction rs)
  case Nil
  then show ?case by simp
next
  case (Cons r rs)
  then have "well_formed r" and "list_all well_formed rs" by simp_all
  from this(1) obtain s e where
    "getitem r (str_of ''string'') = Inr (PStr s)" "encode s = Inr e"
    by (rule well_formed_fields)
  moreover from Cons.IH [OF \<open>list_all well_formed rs\<close>] obtain blob where
    "write_strings rs = Inr blob" by blast
  ultimately show ?case by (simp add: and_then_def encode_val_def)
qed

lemma write_index_total:
  assumes "list_all well_formed rs" and "0 \<le> ss"
    and "ss + int (\<Sum>r\<leftarrow>rs. 4 * str_len r + 1) \<le> 2 ^ 32"
  shows "\<exists>idx. write_index rs ss = Inr idx"
  using assms
proof (induction rs arbitrary: ss)
  case Nil
  then show ?case by simp
next
  case (Cons r rs)
  then have wf: "well_formed r" and rest: "list_all well_formed rs" by simp_all
  from wf obtain i s e where
    i: "getitem r (str_of ''index'') = Inr (PInt i)" "0 \<le> i" "i < 2 ^ 32"
    and s: "getitem r (str_of ''string'') = Inr (PStr s)" "encode s = Inr e"
    and le: "length e \<le> 4 * str_len r"
    by (rule well_formed_fields)
  from Cons.prems(2,3) have ss: "ss < 2 ^ 32" by simp
  from to_bytes_4 [OF i(2,3)] obtain b1 where b1: "to_bytes i 4 False = Inr b1" by blast
  from to_bytes_4 [OF Cons.prems(2) ss] obtain b2 where b2: "to_bytes ss 4 False = Inr b2"
    by blast
  have "0 \<le> ss + int (length e) + 1" using Cons.prems(2) by simp
  moreover have "ss + int (length e) + 1 + int (\<Sum>r\<leftarrow>rs. 4 * str_len r + 1) \<le> 2 ^ 32"
    using Cons.prems(3) le by simp
  ultimately obtain idx where "write_index rs (ss + int (length e) + 1) = Inr idx"
    using Cons.IH [OF rest] by blast
  with i(1) s b1 b2 show ?case
    by (simp add: and_then_def encode_val_def)
qed

lemma write_total:
  assumes "header self = Some h"
    and "list_all well_formed records"
    and "28 + 8 * length records + (\<Sum>r\<leftarrow>records. 4 * str_len r + 1) \<le> 2 ^ 32"
  shows "\<exists>out. StringTBL__write self records = Inr out"
proof -
  let ?n = "length records"
  let ?p = "16 - (12 + ?n * 8) mod 16"
  have n: "int ?n < 2 ^ 32" using assms(3) by simp
  have "0 \<le> int ?n" by (rule of_nat_0_le_iff)
  from to_bytes_4 [OF this n] obtain c where c: "to_bytes (int ?n) 4 False = Inr c" by blast
  have bound: "int (12 + ?n * 8 + ?p) + int (\<Sum>r\<leftarrow>records. 4 * str_len r + 1) \<le> 2 ^ 32"
    using assms(3) by simp
  have nn: "0 \<le> int (12 + ?n * 8 + ?p)" by (rule of_nat_0_le_iff)
  from write_index_total [OF assms(2) nn bound] obtain idx where
    idx: "write_index records (int (12 + ?n * 8 + ?p)) = Inr idx" by blast
  from write_strings_total [OF assms(2)] obtain blob where
    blob: "write_strings records = Inr blob" by blast
  have "StringTBL__write self records = Inr (h @ c @ idx @ replicate ?p 0 @ blob)"
    unfolding StringTBL__write_def Let_def
    by (simp only: assms(1) option.case c idx blob and_then_Inr)
  then show ?thesis by blast
qed

lemma write_padding_shape:
  assumes "StringTBL__write self records = Inr out"
    and "records \<noteq> []"
    and "header self = Some h"
    and "length h = 8"
  shows "\<exists>padding blob s e rest.
           1 \<le> padding \<and> padding \<le> 16
         \<and> (12 + length records * 8 + padding) mod 16 = 0
         \<and> take padding (drop (12 + length records * 8) out) = replicate padding 0
         \<and> drop (12 + length records * 8 + padding) out = blob
         \<and> write_strings records = Inr blob
         \<and> getitem (hd records) (str_of ''string'') = Inr s
         \<and> encode_val s = Inr e
         \<and> blob = e @ [0] @ rest"
proof -
  let ?n = "length records"
  let ?p = "16 - (12 + ?n * 8) mod 16"
  from assms(1,3) obtain c idx blob ss where
    c: "to_bytes (int ?n) 4 False = Inr c"
    and idx: "write_index records ss = Inr idx"
    and blob: "write_strings records = Inr blob"
    and out: "out = h @ c @ idx @ replicate ?p 0 @ blob"
    by (auto simp add: StringTBL__write_def and_then_eq_Inr Let_def)
  have pre: "length (h @ c @ idx) = 12 + ?n * 8"
    using assms(4) length_to_bytes [OF c] length_write_index [OF idx] by simp
  have d1: "drop (12 + ?n * 8) out = replicate ?p 0 @ blob"
    using pre out by (metis append.assoc append_eq_conv_conj)
  then have d2: "drop (12 + ?n * 8 + ?p) out = blob"
    by (metis add.commute append_eq_conv_conj drop_drop length_replicate)
  from assms(2) obtain r rs where "records = r # rs" by (cases records) auto
  with blob obtain s e rest where
    s: "getitem (hd records) (str_of ''string'') = Inr s" and e: "encode_val s = Inr e"
    and rest: "blob = e @ [0] @ rest"
    by (auto simp add: and_then_eq_Inr)
  have p1: "1 \<le> ?p" and p2: "?p \<le> 16" by simp_all
  have al: "(12 + ?n * 8 + ?p) mod 16 = 0" by (rule padding_aligned)
  have z: "take ?p (drop (12 + ?n * 8) out) = replicate ?p 0"
    using d1 by simp
  show ?thesis
    by (intro exI [of _ ?p] exI [of _ blob] exI [of _ s] exI [of _ e] exI [of _ rest] conjI)
      (fact p1 p2 al z d2 blob s e rest)+
qed

lemma short_header_example:
  "StringTBL__write short_header_table example_records = Inr short_header_bytes"
  unfolding StringTBL__write_def short_header_table_def example_records_def short_header_bytes_def
  by (simp add: init_def header_def encode_val_def eval_defs)

lemma voice_example: "StringTBL__write voice_table voice_records = Inr voice_bytes"
  unfolding StringTBL__write_def voice_table_def voice_records_def voice_bytes_def
  by (simp add: init_def header_def encode_val_def eval_defs)

lemma read_strings_raises: "records \<noteq> [] \<Longrightarrow> read_strings self records b = Inl AttributeError"
  by (cases records) (simp_all add: read_strings_def resolve_read_string)

section \<open>write_record\<close>

text \<open>
  C1: for the schema \<open>{"name": "len_string"}\<close> and the record \<open>{"name": "hi"}\<close>,
  \<open>write_record\<close> returns the length-prefixed encoding of the field name \<open>"name"\<close>,
  \<open>b"\\x04name"\<close>, and not that of the record's value, which is
  \<open>b"\\x02hi"\<close>: the \<open>len_string\<close> branch passes \<open>field\<close> where the integer branches
  pass \<open>record[field]\<close>.
\<close>

theorem write_record_uses_field_name:
  "write_record [(str_of ''name'', str_of ''len_string'')] [(str_of ''name'', PStr (str_of ''hi''))]
     = Inr [4, 110, 97, 109, 101]
   \<and> write_string_length (str_of ''hi'') = Inr [2, 104, 105]"
  by (simp add: write_field_def write_string_length_def eval_defs)

text \<open>For a \<open>len_string\<close> field the output does not depend on the record at all.\<close>

lemma write_record_len_string:
  "write_record [(field, str_of ''len_string'')] r = write_string_length field"
  by (cases "write_string_length field")
    (simp_all add: write_field_def str_of_def startswith_def and_then_def)

section \<open>StringTBL._write followed by StringTBL._read\<close>

text \<open>
  C2: for the two-record table, \<open>_write\<close> returns the 37 bytes of \<open>example_bytes\<close>
  (pointers 32 and 34, the offsets of \<open>"A"\<close> and \<open>"BB"\<close>), and \<open>_read\<close> on these bytes
  does not return the records: it raises AttributeError at its call of
  \<open>self.read_string\<close>, a method that no class of the hierarchy defines.
\<close>

theorem string_table_read_raises:
  "StringTBL__write example_table example_records = Inr example_bytes
   \<and> StringTBL__read example_table \<lparr>contents = example_bytes, pos = 0\<rparr> = Inl AttributeError"
proof -
  have "StringTBL__read example_table \<lparr>contents = example_bytes, pos = 0\<rparr> = Inl AttributeError"
    unfolding StringTBL__read_def read_header_def example_table_def example_bytes_def
    by (simp add: read_strings_def resolve_read_string init_def header_def
        record_count_length_def read_entries_numeral eval_defs)
  with write_example show ?thesis by simp
qed

text \<open>
  The index that \<open>_write\<close> emits is right: whenever it returns (with the 8-byte header
  of the class), the pointer stored in the entry of record \<open>i\<close>, at offset
  \<open>12 + 8 * i + 4\<close>, is the offset in the output at which the encoded string of record
  \<open>i\<close> and its terminator stand.
\<close>

lemma write_pointers:
  assumes w: "StringTBL__write self records = Inr out"
    and h: "header self = Some h" "length h = 8"
    and i: "i < length records"
  shows "\<exists>s e. getitem (records ! i) (str_of ''string'') = Inr s \<and> encode_val s = Inr e
           \<and> take (length e + 1)
                (drop (from_le (slice (12 + 8 * i + 4) (12 + 8 * i + 8) out)) out) = e @ [0]"
proof -
  let ?n = "length records"
  let ?p = "16 - (12 + ?n * 8) mod 16"
  let ?base = "12 + ?n * 8 + ?p"
  from w h(1) have
    "and_then (to_bytes (int ?n) 4 False) (\<lambda>c.
     and_then (write_index records (int ?base)) (\<lambda>idx.
     and_then (write_strings records) (\<lambda>strs.
     Inr (h @ c @ idx @ replicate ?p 0 @ strs)))) = Inr out"
    by (simp only: StringTBL__write_def Let_def option.case)
  then obtain c idx blob where
    c: "to_bytes (int ?n) 4 False = Inr c"
    and idx: "write_index records (int ?base) = Inr idx"
    and blob: "write_strings records = Inr blob"
    and out: "h @ c @ idx @ replicate ?p 0 @ blob = out"
    unfolding and_then_eq_Inr sum.inject by blast
  have lc: "length c = 4" using c by (rule length_to_bytes)
  have li: "length idx = 8 * ?n" using idx by (rule length_write_index)
  from write_index_pointer [OF idx blob i] obtain s e k where
    s: "getitem (records ! i) (str_of ''string'') = Inr s" and e: "encode_val s = Inr e"
    and p: "int (from_le (take 4 (drop (8 * i + 4) idx))) = int ?base + int k"
    and t: "take (length e + 1) (drop k blob) = e @ [0]"
    by blast
  have "slice (12 + 8 * i + 4) (12 + 8 * i + 8) out = take 4 (drop (8 * i + 4) idx)"
    using i li lc h(2) out [symmetric] by (simp add: slice_def ac_simps)
  moreover from p have "from_le (take 4 (drop (8 * i + 4) idx)) = ?base + k"
    by linarith
  moreover have "drop (?base + k) out = drop k blob"
    using li lc h(2) out [symmetric] by simp
  ultimately have "take (length e + 1)
      (drop (from_le (slice (12 + 8 * i + 4) (12 + 8 * i + 8) out)) out) = e @ [0]"
    using t by simp
  with s e show ?thesis by blast
qed

section \<open>read_guid_bytes and write_guid_bytes\<close>

text \<open>
  C3: for every 8-byte input whose byte 3 is zero, whose series number (bytes 0-1,
  little endian) is at most 9999, whose letter bytes 2 and 4 are below \<open>0x80\<close>, whose
  spec byte 5 is at most 99 and whose model number (bytes 6-7) is at most 999,
  \<open>write_guid_bytes\<close> applied to the result of \<open>read_guid_bytes\<close> returns the same 8
  bytes; \<open>read_guid_bytes\<close> returns \<open>None\<close> exactly for the all-zero input, which is
  written back as 8 zero bytes.
\<close>

theorem guid_round_trip:
  assumes len: "length bs = 8"
    and reserved: "bs ! 3 = 0"
    and series: "from_le (slice 0 2 bs) \<le> 9999"
    and gundam: "unat (bs ! 2) < 128"
    and unit_type: "unat (bs ! 4) < 128"
    and spec: "unat (bs ! 5) \<le> 99"
    and model: "from_le (slice 6 8 bs) \<le> 999"
  shows "and_then (read_guid_bytes bs) write_guid_bytes = Inr bs
         \<and> (read_guid_bytes bs = Inr None \<longleftrightarrow> bs = [0, 0, 0, 0, 0, 0, 0, 0])"
proof -
  from len obtain b0 b1 b2 b3 b4 b5 b6 b7 where bs: "bs = [b0, b1, b2, b3, b4, b5, b6, b7]"
    by (auto simp add: eval_nat_numeral length_Suc_conv)
  let ?n4 = "unat b0 + 256 * unat b1"
  let ?n3 = "unat b6 + 256 * unat b7"
  let ?f4 = "format_0 4 ?n4"
  let ?f3 = "format_0 3 ?n3"
  let ?f2 = "format_0 2 (unat b5)"
  let ?s = "unat b2 # ?f4 @ unat b4 # ?f3 @ ?f2"
  have l4: "length ?f4 = 4" using series bs by (simp add: length_format_0 slice_def)
  have l3: "length ?f3 = 3" using model bs by (simp add: length_format_0 slice_def)
  have l2: "length ?f2 = 2" using spec bs by (simp add: length_format_0)
  note sl = guid_slices [OF l4 l3 l2, of "unat b2" "unat b4"]
  have g: "utf8_char (unat b2) = Inr [b2]" and u: "utf8_char (unat b4) = Inr [b4]"
    using gundam unit_type bs by (simp_all add: utf8_char_ascii)
  have i4: "int_of_str ?f4 = Inr (int ?n4)" and i3: "int_of_str ?f3 = Inr (int ?n3)"
    and i2: "int_of_str ?f2 = Inr (int (unat b5))"
    using l4 l3 l2 by (simp_all add: int_of_str_digits)
  have w: "write_guid_bytes (Some ?s) = Inr [b0, b1, b2, 0, b4, b5, b6, b7]"
    unfolding write_guid_bytes_def
    by (simp only: option.case list.distinct if_False sl i4 i3 i2 and_then_Inr
        to_bytes_pair to_bytes_single g u append.simps)
  show ?thesis
  proof (cases "bs = [0, 0, 0, 0, 0, 0, 0, 0]")
    case True
    then show ?thesis by (simp add: read_guid_bytes_def write_guid_bytes_def and_then_def)
  next
    case False
    then have r: "read_guid_bytes bs = Inr (Some ?s)"
      using bs by (simp add: read_guid_bytes_def index_def slice_def and_then_def)
    from r w reserved bs False show ?thesis by (simp add: and_then_def)
  qed
qed

text \<open>
  The round trip at the identifier \<open>G0001U00101\<close>.
\<close>

theorem guid_round_trip_witness:
  "length [1, 0, 71, 0, 85, 1, 1, 0 :: byte] = 8
   \<and> read_guid_bytes [1, 0, 71, 0, 85, 1, 1, 0] = Inr (Some (str_of ''G0001U00101''))
   \<and> and_then (read_guid_bytes [1, 0, 71, 0, 85, 1, 1, 0]) write_guid_bytes
     = Inr [1, 0, 71, 0, 85, 1, 1, 0]"
  using guid_round_trip [of "[1, 0, 71, 0, 85, 1, 1, 0]"]
  by (simp add: read_guid_bytes_def eval_defs)

text \<open>
  Outside these bounds the 8 bytes are not reproduced: a non-zero byte 3 is written
  as zero; the series number 10000 takes five digits and the slices no longer parse;
  the letter \<open>0xE9\<close> is written as two UTF-8 bytes; of the spec 100 only the first two
  digits are read back; of the model 1000 only the first three.
\<close>

theorem guid_not_round_trip:
  "and_then (read_guid_bytes [1, 0, 71, 1, 85, 1, 1, 0]) write_guid_bytes
     = Inr [1, 0, 71, 0, 85, 1, 1, 0]
   \<and> and_then (read_guid_bytes [0x10, 0x27, 71, 0, 85, 1, 1, 0]) write_guid_bytes
     = Inl ValueError
   \<and> and_then (read_guid_bytes [1, 0, 0xE9, 0, 85, 1, 1, 0]) write_guid_bytes
     = Inr [1, 0, 0xC3, 0xA9, 0, 85, 1, 1, 0]
   \<and> and_then (read_guid_bytes [1, 0, 71, 0, 85, 100, 1, 0]) write_guid_bytes
     = Inr [1, 0, 71, 0, 85, 10, 1, 0]
   \<and> and_then (read_guid_bytes [1, 0, 71, 0, 85, 1, 0xE8, 3]) write_guid_bytes
     = Inr [1, 0, 71, 0, 85, 0, 100, 0]"
  by (simp add: read_guid_bytes_def write_guid_bytes_def eval_defs)

section \<open>write_string_length and read_string_length\<close>

text \<open>
  C4: for the one-character string \<open>"\\u00e9"\<close>, whose UTF-8 encoding has two bytes,
  \<open>write_string_length\<close> writes the length byte 1 (\<open>len(string)\<close>, the number of
  characters) followed by the two bytes, and \<open>read_string_length\<close> on the result reads
  one byte and fails to decode it. A string of 128 such characters, 256 bytes once
  encoded, is written without an error, with the length byte 128.
\<close>

theorem write_string_length_counts_code_points:
  "write_string_length [233] = Inr [1, 0xC3, 0xA9]
   \<and> encode [233] = Inr [0xC3, 0xA9]
   \<and> read_string_length \<lparr>contents = [1, 0xC3, 0xA9], pos = 0\<rparr> = Inl UnicodeDecodeError
   \<and> write_string_length (replicate 128 233) = Inr (128 # concat (replicate 128 [0xC3, 0xA9]))
   \<and> length (concat (replicate 128 [0xC3, 0xA9 :: byte])) = 256"
proof -
  have "write_string_length [233] = Inr [1, 0xC3, 0xA9]
   \<and> encode [233] = Inr [0xC3, 0xA9]
   \<and> read_string_length \<lparr>contents = [1, 0xC3, 0xA9], pos = 0\<rparr> = Inl UnicodeDecodeError"
    by (simp add: write_string_length_def read_string_length_def eval_defs)
  moreover have "write_string_length (replicate 128 233)
      = Inr (128 # concat (replicate 128 [0xC3, 0xA9]))"
    by (simp add: write_string_length_def write_int_def to_bytes_def and_then_def
        encode_replicate_e9)
  moreover have "length (concat (replicate 128 [0xC3, 0xA9 :: byte])) = 256"
    by (simp add: length_concat sum_list_replicate)
  ultimately show ?thesis by simp
qed

section \<open>read_record and unknown field types\<close>

text \<open>
  C5: a field whose type tag neither starts with \<open>int\<close> or \<open>uint\<close> nor is one of
  \<open>len_string\<close>, \<open>null_string\<close>, \<open>guid\<close>, \<open>series_guid\<close> is skipped without an
  error: \<open>read_record\<close> returns what it returns for the schema without that field.
  A tag that starts with \<open>int\<close> or \<open>uint\<close> raises (ValueError) when \<open>int\<close> refuses
  its last character, and is otherwise read as an integer of that many bytes, whatever
  the number and whatever the script of the digit.
\<close>

theorem read_record_unknown_tag:
  "(\<not> startswith ty (str_of ''int'') \<and> \<not> startswith ty (str_of ''uint'')
      \<and> ty \<notin> set (map str_of [''len_string'', ''null_string'', ''guid'', ''series_guid''])
     \<longrightarrow> read_record self (pre @ (field, ty) # post) b = read_record self (pre @ post) b)
   \<and> ((startswith ty (str_of ''int'') \<or> startswith ty (str_of ''uint''))
        \<and> int_of_str [last ty] = Inl e
     \<longrightarrow> read_field self field ty b r = Some (Inl e))
   \<and> ((startswith ty (str_of ''int'') \<or> startswith ty (str_of ''uint''))
        \<and> int_of_str [last ty] = Inr n
     \<longrightarrow> read_field self field ty b r =
           Some (Inr (setitem r field
                        (PInt (read_int (fst (buf_read n b)) (startswith ty (str_of ''int'')))),
                      snd (buf_read n b))))"
proof (intro conjI impI)
  assume a: "\<not> startswith ty (str_of ''int'') \<and> \<not> startswith ty (str_of ''uint'')
      \<and> ty \<notin> set (map str_of [''len_string'', ''null_string'', ''guid'', ''series_guid''])"
  then have "\<And>b r. read_field self field ty b r = Some (Inr (r, b))"
    by (intro read_field_skip) simp_all
  then show "read_record self (pre @ (field, ty) # post) b = read_record self (pre @ post) b"
    unfolding read_record_def by (rule read_fields_append_skip)
next
  assume "(startswith ty (str_of ''int'') \<or> startswith ty (str_of ''uint''))
        \<and> int_of_str [last ty] = Inl e"
  then show "read_field self field ty b r = Some (Inl e)"
    by (auto simp add: read_field_def)
next
  assume "(startswith ty (str_of ''int'') \<or> startswith ty (str_of ''uint''))
        \<and> int_of_str [last ty] = Inr n"
  then show "read_field self field ty b r =
           Some (Inr (setitem r field
                        (PInt (read_int (fst (buf_read n b)) (startswith ty (str_of ''int'')))),
                      snd (buf_read n b)))"
    by (auto simp add: read_field_def split: prod.splits)
qed

text \<open>
  The three cases at the tags \<open>float\<close>, \<open>integer\<close> and \<open>int3\<close>, and the last
  one again with the Arabic-Indic digit three (U+0663) in place of \<open>3\<close>.
\<close>

theorem read_record_unknown_tag_witness:
  "read_record (init GundamDataFile None None None)
     [(str_of ''a'', str_of ''float''), (str_of ''b'', str_of ''uint1'')]
     \<lparr>contents = [1, 2, 3], pos = 0\<rparr>
   = read_record (init GundamDataFile None None None) [(str_of ''b'', str_of ''uint1'')]
     \<lparr>contents = [1, 2, 3], pos = 0\<rparr>
   \<and> read_field (init GundamDataFile None None None) (str_of ''a'') (str_of ''integer'')
     \<lparr>contents = [1, 2, 3], pos = 0\<rparr> [] = Some (Inl ValueError)
   \<and> read_field (init GundamDataFile None None None) (str_of ''a'') (str_of ''int3'')
     \<lparr>contents = [1, 2, 3], pos = 0\<rparr> []
     = Some (Inr ([(str_of ''a'', PInt 197121)], \<lparr>contents = [1, 2, 3], pos = 3\<rparr>))
   \<and> read_field (init GundamDataFile None None None) (str_of ''a'') (str_of ''int'' @ [0x663])
     \<lparr>contents = [1, 2, 3], pos = 0\<rparr> []
     = Some (Inr ([(str_of ''a'', PInt 197121)], \<lparr>contents = [1, 2, 3], pos = 3\<rparr>))"
proof -
  let ?self = "init GundamDataFile None None None"
  let ?b = "\<lparr>contents = [1, 2, 3], pos = 0\<rparr>"
  have "read_record ?self ([] @ (str_of ''a'', str_of ''float'') # [(str_of ''b'', str_of ''uint1'')]) ?b
      = read_record ?self ([] @ [(str_of ''b'', str_of ''uint1'')]) ?b"
    using read_record_unknown_tag [where ty = "str_of ''float''" and self = ?self
        and pre = "[]" and field = "str_of ''a''" and post = "[(str_of ''b'', str_of ''uint1'')]"
        and b = ?b]
    by (simp add: eval_defs)
  moreover have "read_field ?self (str_of ''a'') (str_of ''integer'') ?b [] = Some (Inl ValueError)"
    using read_record_unknown_tag [where ty = "str_of ''integer''" and self = ?self
        and field = "str_of ''a''" and b = ?b and e = ValueError and r = "[]"]
    by (simp add: eval_defs)
  moreover have "read_field ?self (str_of ''a'') (str_of ''int3'') ?b []
      = Some (Inr ([(str_of ''a'', PInt 197121)], \<lparr>contents = [1, 2, 3], pos = 3\<rparr>))"
    using read_record_unknown_tag [where ty = "str_of ''int3''" and self = ?self
        and field = "str_of ''a''" and b = ?b and n = 3 and r = "[]"]
    by (simp add: eval_defs)
  moreover have "read_field ?self (str_of ''a'') (str_of ''int'' @ [0x663]) ?b []
      = Some (Inr ([(str_of ''a'', PInt 197121)], \<lparr>contents = [1, 2, 3], pos = 3\<rparr>))"
    using read_record_unknown_tag [where ty = "str_of ''int'' @ [0x663]" and self = ?self
        and field = "str_of ''a''" and b = ?b and n = 3 and r = "[]"]
    by (simp add: eval_defs)
  ultimately show ?thesis by simp
qed

text \<open>
  A schema with the tag \<open>float\<close> is read without an error and the field is left out
  of the record; the tag \<open>int3\<close> reads a three-byte integer.
\<close>

theorem read_record_skips_unknown_tag:
  "read_record (init GundamDataFile None None None) [(str_of ''a'', str_of ''float'')]
     \<lparr>contents = [1, 2, 3], pos = 0\<rparr>
     = Some (Inr ([], \<lparr>contents = [1, 2, 3], pos = 0\<rparr>))
   \<and> read_record (init GundamDataFile None None None) [(str_of ''a'', str_of ''int3'')]
     \<lparr>contents = [1, 2, 3], pos = 0\<rparr>
     = Some (Inr ([(str_of ''a'', PInt 197121)], \<lparr>contents = [1, 2, 3], pos = 3\<rparr>))"
  by (simp add: read_record_def read_field_def eval_defs)

section \<open>read_string_null_term\<close>

text \<open>
  C6: \<open>read_string_null_term\<close> seeks to the position recorded by \<open>read_header\<close>
  (\<open>_start_pos\<close>, 0 before any header is read) plus the offset, whatever the cursor
  is; when a zero byte occurs at or after that position it returns the UTF-8 decoding
  of exactly the bytes before the first zero byte and leaves the cursor just after it.
\<close>

theorem read_string_null_term_base:
  assumes "0 \<le> offset"
    and "drop (nat (offset + int (start_pos self))) (contents b) = s @ 0 # rest"
    and "0 \<notin> set s"
  shows "read_string_null_term self b offset =
           Some (and_then (decode s) (\<lambda>output_string.
             Inr (output_string,
                  b\<lparr>pos := nat (offset + int (start_pos self)) + length s + 1\<rparr>)))"
proof -
  let ?p = "nat (offset + int (start_pos self))"
  let ?b = "b\<lparr>pos := ?p\<rparr>"
  have "seek (offset + int (start_pos self)) b = Inr ?b"
    using assms(1) by (simp add: seek_def)
  moreover have "null_term_loop ?b [] = Some ([] @ s, ?b\<lparr>pos := pos ?b + length s + 1\<rparr>)"
    using assms(2,3) by (intro null_term_loop_found) simp_all
  ultimately show ?thesis
    by (simp add: read_string_null_term_def)
qed

text \<open>
  With \<open>_start_pos = 0\<close>, offset 3 and the cursor at 5, the string at position 3 is read.
\<close>

theorem read_string_null_term_base_witness:
  "read_string_null_term (init GundamDataFile None None None)
     \<lparr>contents = [0x41, 0x42, 0, 0x43, 0x44, 0], pos = 5\<rparr> 3
     = Some (Inr (str_of ''CD'', \<lparr>contents = [0x41, 0x42, 0, 0x43, 0x44, 0], pos = 6\<rparr>))"
  using read_string_null_term_base [of 3 "init GundamDataFile None None None"
      "\<lparr>contents = [0x41, 0x42, 0, 0x43, 0x44, 0], pos = 5\<rparr>" "[0x43, 0x44]" "[]"]
  by (simp add: init_def eval_defs)

text \<open>
  With the cursor at 3 and offset 0 the string at position 0 is read, not the one at
  the cursor; and in \<open>read_record\<close> a \<open>null_string\<close> field that follows a \<open>uint1\<close>
  field is read from position 0, not from position 1 where the field begins.
\<close>

theorem read_string_null_term_ignores_cursor:
  "read_string_null_term (init GundamDataFile None None None)
     \<lparr>contents = [0x41, 0x42, 0, 0x43, 0x44, 0], pos = 3\<rparr> 0
     = Some (Inr (str_of ''AB'', \<lparr>contents = [0x41, 0x42, 0, 0x43, 0x44, 0], pos = 3\<rparr>))
   \<and> read_record (init GundamDataFile None None None)
       [(str_of ''n'', str_of ''uint1''), (str_of ''s'', str_of ''null_string'')]
       \<lparr>contents = [2, 0x43, 0x44, 0], pos = 0\<rparr>
     = Some (Inr ([(str_of ''n'', PInt 2), (str_of ''s'', PStr [2, 0x43, 0x44])],
                  \<lparr>contents = [2, 0x43, 0x44, 0], pos = 4\<rparr>))"
  unfolding read_record_def read_string_null_term_def
  by (simp add: read_field_def read_string_null_term_def init_def null_term_loop.simps eval_defs)

text \<open>
  The loop returns only when it meets a zero byte: without one at or after the
  position it seeks to, \<open>read_string_null_term\<close> does not return.
\<close>

lemma null_term_loop_returns:
  assumes "null_term_loop b acc = Some y"
  shows "0 \<in> set (drop (pos b) (contents b))"
proof (rule null_term_loop.raw_induct
    [where P = "\<lambda>b acc y. 0 \<in> set (drop (pos b) (contents b))", OF _ assms], goal_cases)
  case (1 f b acc y)
  show ?case
  proof (cases "take 1 (drop (pos b) (contents b)) = [0]")
    case True
    then have "0 \<in> set (take 1 (drop (pos b) (contents b)))" by simp
    then show ?thesis by (rule in_set_takeD)
  next
    case False
    let ?char = "take 1 (drop (pos b) (contents b))"
    let ?b = "b\<lparr>pos := pos b + length ?char\<rparr>"
    from False 1(2) have "f ?b (acc @ ?char) = Some y"
      by (simp add: buf_read_def Let_def)
    then have "0 \<in> set (drop (pos ?b) (contents ?b))" by (rule 1(1))
    then have "0 \<in> set (drop (length ?char) (drop (pos b) (contents b)))"
      by (simp add: add.commute)
    then show ?thesis by (rule in_set_dropD)
  qed
qed

lemma read_string_null_term_no_terminator:
  assumes "0 \<le> offset"
    and "0 \<notin> set (drop (nat (offset + int (start_pos self))) (contents b))"
  shows "read_string_null_term self b offset = None"
proof -
  let ?b = "b\<lparr>pos := nat (offset + int (start_pos self))\<rparr>"
  have "null_term_loop ?b [] = None"
  proof (cases "null_term_loop ?b []")
    case None
    then show ?thesis .
  next
    case (Some y)
    from null_term_loop_returns [OF this] assms(2) show ?thesis by simp
  qed
  with assms(1) show ?thesis
    by (simp add: read_string_null_term_def seek_def)
qed

section \<open>read_series_bytes and write_series_bytes\<close>

text \<open>
  C7: for every number from 0 to 9999 and every letter whose code point is below
  65536, \<open>write_series_bytes\<close> applied to the letter followed by the four-digit
  zero-padded number returns 4 bytes, and \<open>read_series_bytes\<close> applied to them returns
  that string.
\<close>

theorem series_round_trip:
  assumes "number \<le> 9999" and "letter < 65536"
  shows "\<exists>bs. write_series_bytes (letter # format_0 4 number) = Inr bs \<and> length bs = 4
           \<and> read_series_bytes bs = Inr (letter # format_0 4 number)"
proof -
  let ?out = "le_bytes 2 number @ le_bytes 2 letter"
  have w: "write_series_bytes (letter # format_0 4 number) = Inr ?out"
    using assms
    by (simp add: write_series_bytes_def int_of_str_format_0 and_then_def to_bytes_def index_def)
  have "from_le (le_bytes 2 number) = number" "from_le (le_bytes 2 letter) = letter"
    using assms by (simp_all only: from_le_le_bytes) simp_all
  then have "read_series_bytes ?out = Inr (letter # format_0 4 number)"
    using assms(2)
    by (simp add: read_series_bytes_def slice_def length_le_bytes chr_def and_then_def)
  with w show ?thesis by (simp add: length_le_bytes)
qed

text \<open>
  The round trip at \<open>G0007\<close>.
\<close>

theorem series_round_trip_witness:
  "(7::nat) \<le> 9999 \<and> (71::nat) < 65536
   \<and> write_series_bytes (71 # format_0 4 7) = Inr [7, 0, 71, 0]
   \<and> read_series_bytes [7, 0, 71, 0] = Inr (71 # format_0 4 7)"
  using series_round_trip [of 7 71]
  by (simp add: write_series_bytes_def int_of_str_format_0 and_then_def to_bytes_def index_def
      le_bytes_numeral)

text \<open>
  A letter outside the Basic Multilingual Plane (here U+1F600) does not fit the two
  bytes of the character field: \<open>write_series_bytes\<close> raises OverflowError.
\<close>

theorem series_astral_letter:
  "write_series_bytes (0x1F600 # format_0 4 7) = Inl OverflowError"
  by (simp add: write_series_bytes_def int_of_str_format_0 and_then_def to_bytes_def index_def)

section \<open>StageVoiceTable._read\<close>

text \<open>
  C8: for the voice-cue table with the one record \<open>{index: 1, string: "v001,1,2,3"}\<close>,
  written by \<open>_write\<close> as the 43 bytes of \<open>voice_bytes\<close>, \<open>StageVoiceTable._read\<close> does
  not return a record with \<open>voice_id\<close> and \<open>val1\<close> to \<open>val3\<close>: it raises
  AttributeError in \<open>super()._read\<close>, at the call of \<open>self.read_string\<close>, before its
  own loop is reached.
\<close>

theorem voice_table_read_raises:
  "StringTBL__write voice_table voice_records = Inr voice_bytes
   \<and> StageVoiceTable__read voice_table \<lparr>contents = voice_bytes, pos = 0\<rparr> = Inl AttributeError"
proof -
  have "StringTBL__read voice_table \<lparr>contents = voice_bytes, pos = 0\<rparr> = Inl AttributeError"
    unfolding StringTBL__read_def read_header_def voice_table_def voice_bytes_def
    by (simp add: read_strings_def resolve_read_string init_def header_def
        record_count_length_def read_entries_numeral eval_defs)
  then have "StageVoiceTable__read voice_table \<lparr>contents = voice_bytes, pos = 0\<rparr>
      = Inl AttributeError"
    by (simp add: StageVoiceTable__read_def and_then_def)
  with voice_example show ?thesis by simp
qed

text \<open>
  Whatever the bytes, neither \<open>_read\<close> returns a record: a result is the empty list.
\<close>

lemma string_table_read_empty:
  assumes "StringTBL__read self b = Inr (records, self', b')"
  shows "records = []"
proof -
  from assms obtain x where
    r: "(case x of (n, s1, b1) \<Rightarrow>
          (case read_entries 0 (nat n) b1 of
             (rs, b2) \<Rightarrow>
               and_then (read_strings s1 rs b2) (\<lambda>(records', b3). Inr (records', s1, b3))))
        = Inr (records, self', b')"
    unfolding StringTBL__read_def and_then_eq_Inr by blast
  obtain n s1 b1 where x: "x = (n, s1, b1)" by (cases x)
  obtain rs b2 where e: "read_entries 0 (nat n) b1 = (rs, b2)"
    by (cases "read_entries 0 (nat n) b1")
  from r x e obtain y where y: "read_strings s1 rs b2 = Inr y" and f: "fst y = records"
    by (auto simp add: and_then_eq_Inr)
  show ?thesis
  proof (cases rs)
    case Nil
    with y f show ?thesis by (auto simp add: read_strings_def)
  next
    case (Cons r rs')
    then have "read_strings s1 rs b2 = Inl AttributeError"
      by (simp add: read_strings_raises)
    with y show ?thesis by simp
  qed
qed

lemma voice_table_read_empty:
  assumes "StageVoiceTable__read self b = Inr (records, self', b')"
  shows "records = []"
proof -
  from assms obtain rs s1 b1 where
    "StringTBL__read self b = Inr (rs, s1, b1)" and u: "unpack_all rs = Inr records"
    by (auto simp add: StageVoiceTable__read_def and_then_eq_Inr split: prod.splits)
  then have "rs = []" by (simp add: string_table_read_empty)
  with u show ?thesis by simp
qed

text \<open>
  The body of the loop of \<open>StageVoiceTable._read\<close> on its own, which no call of
  \<open>_read\<close> reaches with a record: with at least 4 parts of which parts 1 to 3 are
  accepted by \<open>int\<close> it stores part 0 as \<open>voice_id\<close> and the integers as \<open>val1\<close>,
  \<open>val2\<close>, \<open>val3\<close>, and ignores any further part; with fewer than 4 parts, or when
  \<open>int\<close> refuses one of parts 1 to 3, it raises.
\<close>

lemma unpack_voice_parts:
  assumes "getitem record (str_of ''string'') = Inr (PStr s)"
  shows "(4 \<le> length (split_on 44 s)
          \<and> int_of_str (split_on 44 s ! 1) = Inr n1
          \<and> int_of_str (split_on 44 s ! 2) = Inr n2
          \<and> int_of_str (split_on 44 s ! 3) = Inr n3
        \<longrightarrow> unpack_voice record =
              Inr (setitem (setitem (setitem (setitem record
                     (str_of ''voice_id'') (PStr (split_on 44 s ! 0)))
                     (str_of ''val1'') (PInt n1))
                     (str_of ''val2'') (PInt n2))
                     (str_of ''val3'') (PInt n3)))
       \<and> (length (split_on 44 s) < 4 \<longrightarrow> isl (unpack_voice record))
       \<and> (4 \<le> length (split_on 44 s)
          \<and> (isl (int_of_str (split_on 44 s ! 1)) \<or> isl (int_of_str (split_on 44 s ! 2))
               \<or> isl (int_of_str (split_on 44 s ! 3)))
        \<longrightarrow> isl (unpack_voice record))"
proof (intro conjI impI)
  assume "4 \<le> length (split_on 44 s)
          \<and> int_of_str (split_on 44 s ! 1) = Inr n1
          \<and> int_of_str (split_on 44 s ! 2) = Inr n2
          \<and> int_of_str (split_on 44 s ! 3) = Inr n3"
  then show "unpack_voice record =
              Inr (setitem (setitem (setitem (setitem record
                     (str_of ''voice_id'') (PStr (split_on 44 s ! 0)))
                     (str_of ''val1'') (PInt n1))
                     (str_of ''val2'') (PInt n2))
                     (str_of ''val3'') (PInt n3))"
    using assms by (auto simp add: unpack_voice_def split_val_def index_def and_then_def Let_def)
next
  assume "length (split_on 44 s) < 4"
  then show "isl (unpack_voice record)"
    using assms
    by (simp add: unpack_voice_def split_val_def index_def and_then_def Let_def
        split: sum.splits)
next
  assume "4 \<le> length (split_on 44 s)
          \<and> (isl (int_of_str (split_on 44 s ! 1)) \<or> isl (int_of_str (split_on 44 s ! 2))
               \<or> isl (int_of_str (split_on 44 s ! 3)))"
  then show "isl (unpack_voice record)"
    using assms
    by (auto simp add: unpack_voice_def split_val_def index_def and_then_def Let_def
        split: sum.splits)
qed

lemma unpack_voice_examples:
  "unpack_voice [(str_of ''string'', PStr (str_of ''v001,1,2,3''))]
     = Inr [(str_of ''string'', PStr (str_of ''v001,1,2,3'')),
            (str_of ''voice_id'', PStr (str_of ''v001'')),
            (str_of ''val1'', PInt 1), (str_of ''val2'', PInt 2), (str_of ''val3'', PInt 3)]
   \<and> isl (unpack_voice [(str_of ''string'', PStr (str_of ''v001,1,2''))])
   \<and> isl (unpack_voice [(str_of ''string'', PStr (str_of ''v001,1,x,3''))])"
proof -
  have g: "\<And>s. getitem [(str_of ''string'', PStr s)] (str_of ''string'') = Inr (PStr s)"
    by (simp add: getitem_def)
  have i: "int_of_str (str_of ''1'') = Inr 1" "int_of_str (str_of ''2'') = Inr 2"
    "int_of_str (str_of ''3'') = Inr 3" "isl (int_of_str (str_of ''x''))"
    by (simp_all add: eval_defs)
  have "unpack_voice [(str_of ''string'', PStr (str_of ''v001,1,2,3''))]
     = Inr [(str_of ''string'', PStr (str_of ''v001,1,2,3'')),
            (str_of ''voice_id'', PStr (str_of ''v001'')),
            (str_of ''val1'', PInt 1), (str_of ''val2'', PInt 2), (str_of ''val3'', PInt 3)]"
    using unpack_voice_parts [OF g, of "str_of ''v001,1,2,3''" 1 2 3] i
    by (simp add: split_examples) (simp add: str_of_def)
  moreover have "isl (unpack_voice [(str_of ''string'', PStr (str_of ''v001,1,2''))])"
    using unpack_voice_parts [OF g, of "str_of ''v001,1,2''"]
    by (simp add: split_examples)
  moreover have "isl (unpack_voice [(str_of ''string'', PStr (str_of ''v001,1,x,3''))])"
    using unpack_voice_parts [OF g, of "str_of ''v001,1,x,3''"] i
    by (simp add: split_examples)
  ultimately show ?thesis by simp
qed

lemma unpack_voice_five_parts:
  "unpack_voice [(str_of ''string'', PStr (str_of ''v001,1,2,3,4''))]
     = Inr [(str_of ''string'', PStr (str_of ''v001,1,2,3,4'')),
            (str_of ''voice_id'', PStr (str_of ''v001'')),
            (str_of ''val1'', PInt 1), (str_of ''val2'', PInt 2), (str_of ''val3'', PInt 3)]"
  by (simp add: unpack_voice_def split_val_def eval_defs)

section \<open>Padding in StringTBL._write\<close>

text \<open>
  C9: for an instance whose header has 8 bytes (the header of the class) and a
  non-empty list of records, \<open>_write\<close> returns whenever every record carries an
  integer index from 0 to \<open>2^32 - 1\<close> and a string without surrogate code points
  and the table stays below \<open>2^32\<close> bytes; and whenever it returns, the output has,
  from offset \<open>12 + count * 8\<close>, between 1 and 16 padding bytes, all zero, the offset
  after them is a multiple of 16, and there the string blob begins, with the encoded
  string of the first record followed by a zero byte.
\<close>

theorem write_padding:
  assumes "header self = Some h" and "length h = 8" and "records \<noteq> []"
  shows "(list_all well_formed records
          \<and> 28 + 8 * length records + (\<Sum>r\<leftarrow>records. 4 * str_len r + 1) \<le> 2 ^ 32
         \<longrightarrow> (\<exists>out. StringTBL__write self records = Inr out))
       \<and> (StringTBL__write self records = Inr out
         \<longrightarrow> (\<exists>padding blob s e rest.
                1 \<le> padding \<and> padding \<le> 16
              \<and> (12 + length records * 8 + padding) mod 16 = 0
              \<and> take padding (drop (12 + length records * 8) out) = replicate padding 0
              \<and> drop (12 + length records * 8 + padding) out = blob
              \<and> write_strings records = Inr blob
              \<and> getitem (hd records) (str_of ''string'') = Inr s
              \<and> encode_val s = Inr e
              \<and> blob = e @ [0] @ rest))"
proof (intro conjI impI)
  assume "list_all well_formed records
          \<and> 28 + 8 * length records + (\<Sum>r\<leftarrow>records. 4 * str_len r + 1) \<le> 2 ^ 32"
  then show "\<exists>out. StringTBL__write self records = Inr out"
    using write_total [OF assms(1)] by blast
next
  assume "StringTBL__write self records = Inr out"
  then show "\<exists>padding blob s e rest.
                1 \<le> padding \<and> padding \<le> 16
              \<and> (12 + length records * 8 + padding) mod 16 = 0
              \<and> take padding (drop (12 + length records * 8) out) = replicate padding 0
              \<and> drop (12 + length records * 8 + padding) out = blob
              \<and> write_strings records = Inr blob
              \<and> getitem (hd records) (str_of ''string'') = Inr s
              \<and> encode_val s = Inr e
              \<and> blob = e @ [0] @ rest"
    using assms by (intro write_padding_shape)
qed

text \<open>For the two-record table the padding is the 4 zero bytes at offsets 28 to 31.\<close>

theorem write_padding_witness:
  "header example_table = Some (take 8 example_bytes)
   \<and> length (take 8 example_bytes) = 8
   \<and> example_records \<noteq> []
   \<and> list_all well_formed example_records
   \<and> 28 + 8 * length example_records + (\<Sum>r\<leftarrow>example_records. 4 * str_len r + 1) \<le> 2 ^ 32
   \<and> (\<exists>out. StringTBL__write example_table example_records = Inr out)
   \<and> StringTBL__write example_table example_records = Inr example_bytes
   \<and> take 4 (drop 28 example_bytes) = [0, 0, 0, 0]
   \<and> (\<exists>padding blob s e rest.
           1 \<le> padding \<and> padding \<le> 16
         \<and> (12 + length example_records * 8 + padding) mod 16 = 0
         \<and> take padding (drop (12 + length example_records * 8) example_bytes)
             = replicate padding 0
         \<and> drop (12 + length example_records * 8 + padding) example_bytes = blob
         \<and> write_strings example_records = Inr blob
         \<and> getitem (hd example_records) (str_of ''string'') = Inr s
         \<and> encode_val s = Inr e
         \<and> blob = e @ [0] @ rest)"
proof -
  have ne: "example_records \<noteq> []" by (simp add: example_records_def)
  have h: "header example_table = Some (take 8 example_bytes)"
    by (simp add: header_def init_def example_table_def example_bytes_def)
  have l: "length (take 8 example_bytes) = 8" by (simp add: example_bytes_def)
  have z: "take 4 (drop 28 example_bytes) = [0, 0, 0, 0]" by (simp add: example_bytes_def)
  have wf: "list_all well_formed example_records"
    by (simp add: example_records_def well_formed_def encodable_def getitem_def str_of_def)
  have sz: "28 + 8 * length example_records + (\<Sum>r\<leftarrow>example_records. 4 * str_len r + 1) \<le> 2 ^ 32"
    by (simp add: example_records_def str_len_def getitem_def str_of_def)
  note t = write_padding [OF h l ne, of example_bytes]
  from t wf sz have ex: "\<exists>out. StringTBL__write example_table example_records = Inr out"
    by blast
  from t write_example have sh: "\<exists>padding blob s e rest.
           1 \<le> padding \<and> padding \<le> 16
         \<and> (12 + length example_records * 8 + padding) mod 16 = 0
         \<and> take padding (drop (12 + length example_records * 8) example_bytes)
             = replicate padding 0
         \<and> drop (12 + length example_records * 8 + padding) example_bytes = blob
         \<and> write_strings example_records = Inr blob
         \<and> getitem (hd example_records) (str_of ''string'') = Inr s
         \<and> encode_val s = Inr e
         \<and> blob = e @ [0] @ rest"
    by blast
  from h l ne wf sz ex write_example z sh show ?thesis by (intro conjI)
qed

text \<open>
  With the header \<open>b"AB"\<close> given to the constructor the offsets still count 12 bytes
  for header and count: the first string is written at offset 26, which is below
  \<open>12 + count * 8 = 28\<close> and is not a multiple of 16.
\<close>

theorem write_padding_short_header:
  "StringTBL__write short_header_table example_records = Inr short_header_bytes
   \<and> header short_header_table = Some [0x41, 0x42]
   \<and> drop 26 short_header_bytes = [65, 0, 66, 66, 0]
   \<and> (26::nat) mod 16 = 10
   \<and> (26::nat) < 12 + length example_records * 8"
  using short_header_example
  by (simp add: short_header_table_def init_def header_def short_header_bytes_def
      example_records_def)

section \<open>The public entry points of the table classes\<close>

text \<open>
  C10: for an instance of \<open>StringTBL\<close> or \<open>StageVoiceTable\<close>, \<open>read\<close> and \<open>write\<close>
  resolve to the methods of \<open>GundamDataFile\<close> and raise NotImplementedError, for every
  argument; \<open>read_file\<close>, \<open>write_file\<close>, \<open>dump\<close> and \<open>load\<close> therefore raise on
  every call.
\<close>

theorem entry_points_not_implemented:
  assumes "cls self = StringTBL \<or> cls self = StageVoiceTable"
  shows "read self b = Inl NotImplementedError
       \<and> write_py self records = Inl NotImplementedError
       \<and> isl (read_file self fs name)
       \<and> isl (write_file self fs records name)
       \<and> isl (dump json_dump self fs data_filename json_filename)
       \<and> isl (load json_load self fs json_filename data_filename)"
proof -
  have r: "\<And>b. read self b = Inl NotImplementedError"
    using resolve_read [OF assms] by (simp add: read_def GundamDataFile_read_def)
  have w: "\<And>records. write_py self records = Inl NotImplementedError"
    using resolve_write [OF assms] by (simp add: write_py_def GundamDataFile_write_def)
  have rf: "\<And>name. isl (read_file self fs name)"
    unfolding read_file_def by (rule isl_and_then) (simp add: r)
  have wf: "\<And>records name. isl (write_file self fs records name)"
    unfolding write_file_def
    by (rule isl_and_then) (simp add: w and_then_def split: prod.splits)
  have d: "isl (dump json_dump self fs data_filename json_filename)"
    unfolding dump_def Let_def
    by (intro isl_and_then isl_and_then_left rf)
  have l: "isl (load json_load self fs json_filename data_filename)"
    unfolding load_def Let_def
    by (intro isl_and_then wf)
  from r w rf wf d l show ?thesis by simp
qed

text \<open>
  The entry points on a default-constructed \<open>StringTBL\<close>.
\<close>

theorem entry_points_not_implemented_witness:
  "cls example_table = StringTBL
   \<and> read example_table \<lparr>contents = example_bytes, pos = 0\<rparr> = Inl NotImplementedError
   \<and> write_py example_table example_records = Inl NotImplementedError
   \<and> isl (read_file example_table [str_of ''a.tbl'' \<mapsto> example_bytes] (Some (str_of ''a.tbl'')))
   \<and> isl (write_file example_table Map.empty example_records (Some (str_of ''a.tbl'')))
   \<and> isl (dump (\<lambda>key records. []) example_table [str_of ''a.tbl'' \<mapsto> example_bytes]
             (Some (str_of ''a.tbl'')) None)
   \<and> isl (load (\<lambda>text. Inr [str_of ''a.tbl'' \<mapsto> example_records]) example_table
             [str_of ''a.json'' \<mapsto> []] None (Some (str_of ''a.tbl'')))"
proof -
  have c: "cls example_table = StringTBL \<or> cls example_table = StageVoiceTable"
    by (simp add: example_table_def init_def)
  have "cls example_table = StringTBL" by (simp add: example_table_def init_def)
  with entry_points_not_implemented [OF c] show ?thesis by simp
qed

end
